theory Spec2Isabelle
  imports Complex_Main
begin

section \<open>Values of the source language\<close>

text \<open>
  The module \<^verbatim>\<open>next-rate-limit.ts\<close> throws one error of its own (line 101); every other
  failure it can run into is a \<^verbatim>\<open>TypeError\<close> of the runtime or of a library constructor.
\<close>

datatype error = Error string | TypeError

text \<open>
  An optional string is \<open>None\<close> for \<^verbatim>\<open>undefined\<close> and \<^verbatim>\<open>null\<close>. In a chain
  \<^verbatim>\<open>a || b\<close> the left operand is taken when it is truthy: a string that is not empty.
\<close>

definition truthy :: "string option \<Rightarrow> bool" where
  "truthy a = (case a of None \<Rightarrow> False | Some s \<Rightarrow> s \<noteq> [])"

definition or_else :: "string option \<Rightarrow> string option \<Rightarrow> string option" where
  "or_else a b = (if truthy a then a else b)"

text \<open>\<^verbatim>\<open>Math.ceil(x / 1000)\<close> on an integer \<open>x\<close>; \<open>div\<close> on \<open>int\<close> rounds down.\<close>

definition ceil_div_1000 :: "int \<Rightarrow> int" where
  "ceil_div_1000 x = - ((- x) div 1000)"

section \<open>The local window counter\<close>

text \<open>The value stored per identifier: \<^verbatim>\<open>{ count: number, reset: number }\<close>.\<close>

record token_data =
  count :: int
  reset :: int

text \<open>
  Modelled from the spec: the class \<^verbatim>\<open>LRUCache\<close> comes from the package
  \<^verbatim>\<open>lru-cache\<close>, which is not among the sources. The spec describes the local window
  counter as a capacity-bounded store that evicts expired entries by itself and evicts the
  least-recently-touched key when the capacity is exceeded. The model keeps the entries most
  recently used first, each with the time of its last \<^verbatim>\<open>set\<close>; an entry is stale once more
  than \<open>ttl\<close> milliseconds have passed since then (a \<open>ttl\<close> of 0 means no expiry, a \<open>max\<close>
  of 0 no bound). With \<^verbatim>\<open>ttlAutopurge\<close> stale entries are removed by timers, so every
  operation first drops the entries that are stale at its time.
\<close>

record lru_cache =
  lru_max :: nat
  lru_ttl :: int
  lru_items :: "(string \<times> token_data \<times> int) list"

text \<open>
  Modelled from the spec: the constructor of the absent \<^verbatim>\<open>LRUCache\<close>, called with
  \<^verbatim>\<open>max\<close> and \<^verbatim>\<open>ttl\<close>. The specification takes the limit and the window as positive; the
  package rejects a negative bound or ttl, and a cache with neither a bound nor a ttl.
\<close>

definition LRUCache_new :: "int \<Rightarrow> int \<Rightarrow> error + lru_cache" where
  "LRUCache_new mx ttl =
     (if mx < 0 \<or> ttl < 0 \<or> (mx = 0 \<and> ttl = 0) then Inl TypeError
      else Inr \<lparr>lru_max = nat mx, lru_ttl = ttl, lru_items = []\<rparr>)"

text \<open>
  Modelled from the spec: expiry in the absent \<^verbatim>\<open>LRUCache\<close>. An entry is stale once its
  age exceeds the ttl; \<open>purgeStale\<close> is what the timers of \<^verbatim>\<open>ttlAutopurge\<close> have removed by
  the time \<open>now\<close>.
\<close>

definition isStale :: "int \<Rightarrow> int \<Rightarrow> int \<Rightarrow> bool" where
  "isStale ttl now start = (ttl \<noteq> 0 \<and> now - start > ttl)"

definition purgeStale :: "int \<Rightarrow> lru_cache \<Rightarrow> lru_cache" where
  "purgeStale now c =
     c\<lparr>lru_items := filter (\<lambda>e. \<not> isStale (lru_ttl c) now (snd (snd e))) (lru_items c)\<rparr>"

definition lru_keys :: "lru_cache \<Rightarrow> string list" where
  "lru_keys c = map fst (lru_items c)"

text \<open>
  Modelled from the spec: \<^verbatim>\<open>get\<close> of the absent \<^verbatim>\<open>LRUCache\<close> returns the value of a
  live entry and makes it the most recently used.
\<close>

definition lru_get :: "int \<Rightarrow> string \<Rightarrow> lru_cache \<Rightarrow> token_data option \<times> lru_cache" where
  "lru_get now k c =
     (let c1 = purgeStale now c in
      case map_of (lru_items c1) k of
        None \<Rightarrow> (None, c1)
      | Some (v, s) \<Rightarrow>
          (Some v, c1\<lparr>lru_items := (k, v, s) # filter (\<lambda>e. fst e \<noteq> k) (lru_items c1)\<rparr>))"

text \<open>
  Modelled from the spec: \<^verbatim>\<open>set\<close> of the absent \<^verbatim>\<open>LRUCache\<close> stores the value as the
  most recently used entry and restarts its age. A key that is new to a full cache takes
  the place of the least recently used entry, the last of the list.
\<close>

definition lru_set :: "int \<Rightarrow> string \<Rightarrow> token_data \<Rightarrow> lru_cache \<Rightarrow> lru_cache" where
  "lru_set now k v c =
     (let c1 = purgeStale now c;
          others = filter (\<lambda>e. fst e \<noteq> k) (lru_items c1);
          kept = (if k \<notin> set (lru_keys c1) \<and> lru_max c1 \<noteq> 0 \<and> lru_max c1 \<le> length others
                  then butlast others else others)
      in c1\<lparr>lru_items := (k, v, now) # kept\<rparr>)"

text \<open>
  \<^verbatim>\<open>tokenData.count += 1\<close> changes the object the cache holds, not a copy: the entry's
  value changes, its age and its place in the order do not.
\<close>

definition lru_mutate :: "string \<Rightarrow> (token_data \<Rightarrow> token_data) \<Rightarrow> lru_cache \<Rightarrow> lru_cache" where
  "lru_mutate k f c =
     c\<lparr>lru_items := map (\<lambda>e. if fst e = k then (fst e, f (fst (snd e)), snd (snd e)) else e)
                        (lru_items c)\<rparr>"

text \<open>The result of \<^verbatim>\<open>checkRateLimit\<close>: \<^verbatim>\<open>{ success, remaining, reset }\<close>.\<close>

record local_result =
  l_success :: bool
  l_remaining :: int
  l_reset :: int

text \<open>
  \<^verbatim>\<open>checkRateLimit\<close> (lines 193 to 209), with the clock reading \<open>now\<close> and the cache as
  explicit arguments.
\<close>

definition checkRateLimit ::
  "string \<Rightarrow> int \<Rightarrow> int \<Rightarrow> int \<Rightarrow> lru_cache \<Rightarrow> local_result \<times> lru_cache" where
  "checkRateLimit identifier limit window now c =
     (let (found, c1) = lru_get now identifier c;
          (tokenData, c2) =
            (case found of
               None \<Rightarrow> (\<lparr>count = 0, reset = now + window\<rparr>,
                         lru_set now identifier \<lparr>count = 0, reset = now + window\<rparr> c1)
             | Some td \<Rightarrow> (td, c1));
          tokenData' = tokenData\<lparr>count := count tokenData + 1\<rparr>;
          c3 = lru_mutate identifier (\<lambda>_. tokenData') c2;
          currentUsage = count tokenData';
          success = (currentUsage \<le> limit);
          remaining = (if success then limit - currentUsage else 0)
      in (\<lparr>l_success = success, l_remaining = remaining,
           l_reset = ceil_div_1000 (reset tokenData')\<rparr>, c3))"



text \<open>
  A cache in use keeps its keys distinct and, when it has a bound, at most \<open>max\<close> entries.
\<close>

definition lru_inv :: "lru_cache \<Rightarrow> bool" where
  "lru_inv c = (distinct (lru_keys c) \<and> (lru_max c = 0 \<or> length (lru_items c) \<le> lru_max c))"

text \<open>
  The two ways the module touches the cache: a call of \<^verbatim>\<open>checkRateLimit\<close> and the
  \<^verbatim>\<open>tokenCache.set\<close> of line 175, each at its time.
\<close>

datatype cache_op = CheckOp string int | SetOp string token_data int

fun apply_ops :: "int \<Rightarrow> int \<Rightarrow> cache_op list \<Rightarrow> lru_cache \<Rightarrow> lru_cache" where
  "apply_ops L w [] c = c"
| "apply_ops L w (CheckOp k t # ops) c = apply_ops L w ops (snd (checkRateLimit k L w t c))"
| "apply_ops L w (SetOp k v t # ops) c = apply_ops L w ops (lru_set t k v c)"

section \<open>Resolving the identifier\<close>

text \<open>\<^verbatim>\<open>s.split(',')\<close>: the pieces between the commas; an empty string gives one empty piece.\<close>

fun split_comma :: "string \<Rightarrow> string list" where
  "split_comma [] = [[]]"
| "split_comma (ch # cs) =
     (if ch = CHR '','' then [] # split_comma cs
      else (case split_comma cs of [] \<Rightarrow> [[ch]] | x # xs \<Rightarrow> (ch # x) # xs))"

text \<open>\<^verbatim>\<open>pop()\<close>: the last element, \<^verbatim>\<open>undefined\<close> on an empty array.\<close>

definition pop :: "'a list \<Rightarrow> 'a option" where
  "pop xs = (case rev xs of [] \<Rightarrow> None | x # _ \<Rightarrow> Some x)"

text \<open>
  \<^verbatim>\<open>trim()\<close> removes white space and line terminators at both ends. A header value is a
  string of single-byte code units; among those the white space of the language is
  9 to 13, 32 and 160.
\<close>

definition isWhiteSpace :: "char \<Rightarrow> bool" where
  "isWhiteSpace ch = ((of_char ch :: nat) \<in> {9, 10, 11, 12, 13, 32, 160})"

definition trim :: "string \<Rightarrow> string" where
  "trim s = rev (dropWhile isWhiteSpace (rev (dropWhile isWhiteSpace s)))"

text \<open>\<^verbatim>\<open>h?.split(',').pop()?.trim()\<close> on the value of the \<^verbatim>\<open>x-forwarded-for\<close> header.\<close>

definition forwarded_pop :: "string option \<Rightarrow> string option" where
  "forwarded_pop h =
     (case h of None \<Rightarrow> None
      | Some s \<Rightarrow> (case pop (split_comma s) of None \<Rightarrow> None | Some e \<Rightarrow> Some (trim e)))"

text \<open>
  What the module reads of its two kinds of request: of an \<^verbatim>\<open>IncomingMessage\<close> the
  header \<^verbatim>\<open>x-forwarded-for\<close> and \<^verbatim>\<open>socket.remoteAddress\<close>; of a \<^verbatim>\<open>Request\<close> the headers
  \<^verbatim>\<open>x-forwarded-for\<close>, \<^verbatim>\<open>x-real-ip\<close>, \<^verbatim>\<open>x-client-ip\<close> and the property \<^verbatim>\<open>ip\<close>.
\<close>

record IncomingMessage =
  req_x_forwarded_for :: "string option"
  remoteAddress :: "string option"

record Request =
  x_forwarded_for :: "string option"
  ip :: "string option"
  x_real_ip :: "string option"
  x_client_ip :: "string option"

text \<open>
  The \<^verbatim>\<open>upstash\<close> object of the caller: its own properties in the order in which the
  object lists them (the keys of an object are distinct), each with its value. A property
  may be present with the value \<^verbatim>\<open>undefined\<close>. The order matters because the
  configuration is compared through its \<^verbatim>\<open>JSON.stringify\<close> text.
\<close>

datatype js_value = JUndefined | JNull | JBool bool | JString string

type_synonym upstash_options = "(string \<times> js_value) list"

text \<open>Reading a property; a missing one reads as \<^verbatim>\<open>undefined\<close>.\<close>

definition get_prop :: "string \<Rightarrow> upstash_options \<Rightarrow> js_value" where
  "get_prop k u = (case map_of u k of None \<Rightarrow> JUndefined | Some v \<Rightarrow> v)"

text \<open>
  Assigning a property: an existing one keeps its place, a new one goes to the end.
\<close>

fun set_prop :: "string \<Rightarrow> js_value \<Rightarrow> upstash_options \<Rightarrow> upstash_options" where
  "set_prop k v [] = [(k, v)]"
| "set_prop k v (p # ps) = (if fst p = k then (k, v) # ps else p # set_prop k v ps)"

definition js_truthy :: "js_value \<Rightarrow> bool" where
  "js_truthy v = (case v of JBool b \<Rightarrow> b | JString s \<Rightarrow> s \<noteq> [] | _ \<Rightarrow> False)"

text \<open>\<^verbatim>\<open>a || b\<close> on values.\<close>

definition js_or :: "js_value \<Rightarrow> js_value \<Rightarrow> js_value" where
  "js_or a b = (if js_truthy a then a else b)"

text \<open>A variable of the environment: a string, or \<^verbatim>\<open>undefined\<close> when it is not set.\<close>

definition env_value :: "string option \<Rightarrow> js_value" where
  "env_value e = (case e of None \<Rightarrow> JUndefined | Some s \<Rightarrow> JString s)"

text \<open>
  The argument of \<^verbatim>\<open>rateLimit\<close>. The objects \<^verbatim>\<open>response\<close> and \<^verbatim>\<open>res\<close> only receive
  headers and the 429 status; they are not read for the decision and are left out.
\<close>

record RateLimitOptions =
  o_request :: "Request option"
  o_req :: "IncomingMessage option"
  o_identifier :: "string option"
  o_limit :: "int option"
  o_window :: "int option"
  o_upstash :: "upstash_options option"

text \<open>Lines 104 to 110: first the \<^verbatim>\<open>req\<close> branch, then the \<^verbatim>\<open>request\<close> branch.\<close>

definition resolveIdentifier :: "RateLimitOptions \<Rightarrow> string option" where
  "resolveIdentifier opts =
     (let identifier = o_identifier opts;
          identifier =
            (case o_req opts of
               None \<Rightarrow> identifier
             | Some req \<Rightarrow>
                 or_else (or_else (or_else identifier (forwarded_pop (req_x_forwarded_for req)))
                   (remoteAddress req)) (Some ''127.0.0.1''));
          identifier =
            (case o_request opts of
               None \<Rightarrow> identifier
             | Some request \<Rightarrow>
                 or_else (or_else (or_else (or_else (or_else identifier
                   (forwarded_pop (x_forwarded_for request))) (ip request))
                   (x_real_ip request)) (x_client_ip request)) (Some ''127.0.0.1''))
      in identifier)"

text \<open>
  The precedence in the words of the specification: of a list of candidates the first that
  is present; the forwarded-for candidate is the text after the last comma, trimmed.
\<close>

fun first_present :: "string option list \<Rightarrow> string option" where
  "first_present [] = None"
| "first_present (a # as) = (if truthy a then a else first_present as)"

definition last_forwarded_entry :: "string option \<Rightarrow> string option" where
  "last_forwarded_entry h =
     (case h of None \<Rightarrow> None
      | Some s \<Rightarrow> Some (trim (rev (takeWhile (\<lambda>ch. ch \<noteq> CHR '','') (rev s)))))"

section \<open>Configuration and initialisation\<close>

record config =
  cfg_limit :: int
  cfg_window :: int
  cfg_upstash :: upstash_options

text \<open>
  The \<^verbatim>\<open>Ratelimit\<close> object of \<^verbatim>\<open>@upstash/ratelimit\<close> with the \<^verbatim>\<open>Redis\<close> connection it
  holds: what it was built from. The counts themselves live in the remote store.
\<close>

record ratelimit_client =
  rc_url :: js_value
  rc_token :: js_value
  rc_sliding :: bool
  rc_limit :: int
  rc_window :: int
  rc_analytics :: js_value

text \<open>
  The module's variables. \<open>currentConfig\<close> starts as the empty object (\<open>None\<close>), the cache
  and the client start undefined. \<open>upstash_calls\<close> records every call of
  \<^verbatim>\<open>ratelimit.limit\<close>, with the client it went through.
\<close>

record state =
  currentConfig :: "config option"
  tokenCache :: "lru_cache option"
  ratelimit :: "ratelimit_client option"
  upstash_calls :: "(ratelimit_client \<times> string) list"

definition initial_state :: state where
  "initial_state = \<lparr>currentConfig = None, tokenCache = None, ratelimit = None, upstash_calls = []\<rparr>"

text \<open>The guard \<^verbatim>\<open>enabled && url && token\<close> of lines 28 and 162.\<close>

definition upstash_ready :: "upstash_options \<Rightarrow> bool" where
  "upstash_ready u =
     (js_truthy (get_prop ''enabled'' u) \<and> js_truthy (get_prop ''url'' u) \<and> js_truthy (get_prop ''token'' u))"

definition new_client :: "config \<Rightarrow> ratelimit_client" where
  "new_client cf =
     \<lparr>rc_url = get_prop ''url'' (cfg_upstash cf),
      rc_token = get_prop ''token'' (cfg_upstash cf),
      rc_sliding = js_truthy (get_prop ''sliding'' (cfg_upstash cf)),
      rc_limit = cfg_limit cf, rc_window = cfg_window cf,
      rc_analytics = get_prop ''analytics'' (cfg_upstash cf)\<rparr>"

text \<open>
  The text \<^verbatim>\<open>JSON.stringify\<close> gives for a configuration \<^verbatim>\<open>{ limit, window, upstash }\<close>:
  the limit, the window, and the properties of \<^verbatim>\<open>upstash\<close> in their order, those with
  the value \<^verbatim>\<open>undefined\<close> left out. Two texts are equal exactly when these three parts
  are equal, so the parts stand for the text.
\<close>

definition JSON_stringify :: "config \<Rightarrow> int \<times> int \<times> (string \<times> js_value) list" where
  "JSON_stringify cf =
     (cfg_limit cf, cfg_window cf, filter (\<lambda>p. snd p \<noteq> JUndefined) (cfg_upstash cf))"

text \<open>
  The comparison of line 15. The text of the initial \<open>currentConfig\<close>, the empty object,
  differs from the text of every configuration.
\<close>

definition config_changed :: "config \<Rightarrow> state \<Rightarrow> bool" where
  "config_changed cf st =
     (case currentConfig st of
        None \<Rightarrow> True
      | Some active \<Rightarrow> JSON_stringify cf \<noteq> JSON_stringify active)"

text \<open>
  \<^verbatim>\<open>initialize\<close> (lines 11 to 44). \<open>currentConfig\<close> is assigned before the cache is built,
  so it stays assigned when the constructor of the cache throws.
\<close>

definition initialize :: "config \<Rightarrow> state \<Rightarrow> (error + unit) \<times> state" where
  "initialize cf st =
     (if config_changed cf st then
        (let st1 = st\<lparr>currentConfig := Some cf\<rparr> in
         case LRUCache_new (cfg_limit cf) (cfg_window cf * 1000) of
           Inl e \<Rightarrow> (Inl e, st1)
         | Inr cache \<Rightarrow>
             (let st2 = st1\<lparr>tokenCache := Some cache\<rparr> in
              if upstash_ready (cfg_upstash cf)
              then (Inr (), st2\<lparr>ratelimit := Some (new_client cf)\<rparr>)
              else (Inr (), st2)))
      else (Inr (), st))"

section \<open>The decision\<close>

text \<open>The answer of \<^verbatim>\<open>ratelimit.limit\<close>; \<open>u_reset\<close> is in milliseconds.\<close>

record upstash_result =
  u_success :: bool
  u_remaining :: int
  u_reset :: int
  u_pending :: nat

text \<open>
  The 429 response with its three rate-limit headers. The \<^verbatim>\<open>access-control-\<close> headers
  copied from the caller's response and the warnings written to the console are left out.
\<close>

record rate_limited_response =
  status :: nat
  message :: string
  x_ratelimit_limit :: int
  x_ratelimit_remaining :: int
  x_ratelimit_reset :: int

definition tooManyRequests :: "int \<Rightarrow> int \<Rightarrow> int \<Rightarrow> rate_limited_response" where
  "tooManyRequests limitValue remainingValue resetValue =
     \<lparr>status = 429, message = ''Too Many Requests'', x_ratelimit_limit = limitValue,
      x_ratelimit_remaining = remainingValue, x_ratelimit_reset = resetValue\<rparr>"

record RateLimitResponse =
  rl_success :: bool
  rl_remaining :: int
  rl_reset :: int
  rl_rateLimitedResponse :: "rate_limited_response option"
  rl_pending :: "nat option"

record environment =
  UPSTASH_REDIS_REST_URL :: "string option"
  UPSTASH_REDIS_REST_TOKEN :: "string option"

text \<open>The default \<^verbatim>\<open>upstash = {}\<close> of line 99.\<close>

definition default_upstash :: upstash_options where
  "default_upstash = []"

text \<open>
  The configuration a call works with: the defaults of lines 97 to 99 and the fallback to
  the environment of lines 113 and 114, as passed to \<^verbatim>\<open>initialize\<close> in lines 116 to 124.
  The two assignments give the object the properties \<^verbatim>\<open>url\<close> and \<^verbatim>\<open>token\<close> (at the end,
  when it did not have them); the spread of line 120 copies the properties in their order
  and writes the two again in place.
\<close>

definition effective_config :: "RateLimitOptions \<Rightarrow> environment \<Rightarrow> config" where
  "effective_config opts env =
     (let limit = (case o_limit opts of None \<Rightarrow> 60 | Some l \<Rightarrow> l);
          window = (case o_window opts of None \<Rightarrow> 60 | Some w \<Rightarrow> w);
          upstash0 = (case o_upstash opts of None \<Rightarrow> default_upstash | Some u \<Rightarrow> u);
          upstash1 = set_prop ''url''
                       (js_or (get_prop ''url'' upstash0) (env_value (UPSTASH_REDIS_REST_URL env)))
                       upstash0;
          upstash2 = set_prop ''token''
                       (js_or (get_prop ''token'' upstash1) (env_value (UPSTASH_REDIS_REST_TOKEN env)))
                       upstash1
      in \<lparr>cfg_limit = limit, cfg_window = window,
          cfg_upstash = set_prop ''token'' (get_prop ''token'' upstash2)
                          (set_prop ''url'' (get_prop ''url'' upstash2) upstash2)\<rparr>)"

text \<open>
  \<^verbatim>\<open>rateLimit\<close> (lines 91 to 191). \<open>backend\<close> is the answer of the remote store to a call
  of \<^verbatim>\<open>ratelimit.limit\<close> (an error when the call fails: the module does not catch it);
  \<open>now\<close> is the time of the local check and \<open>later\<close> the time of the \<^verbatim>\<open>tokenCache.set\<close>
  of line 175, after the remote call. After lines 104 to 110 the identifier is a string
  that is not empty, so the branch for a missing one is never taken.
\<close>

definition rateLimit ::
  "RateLimitOptions \<Rightarrow> environment \<Rightarrow> (ratelimit_client \<Rightarrow> string \<Rightarrow> error + upstash_result) \<Rightarrow>
   int \<Rightarrow> int \<Rightarrow> state \<Rightarrow> (error + RateLimitResponse) \<times> state" where
  "rateLimit opts env backend now later st =
     (if o_req opts = None \<and> o_request opts = None \<and> \<not> truthy (o_identifier opts)
      then (Inl (Error ''Either Request or Identifier is Required''), st)
      else
       (let identifier = resolveIdentifier opts;
            cf = effective_config opts env;
            limit = cfg_limit cf;
            window = cfg_window cf;
            upstash = cfg_upstash cf
        in case initialize cf st of
             (Inl e, st1) \<Rightarrow> (Inl e, st1)
           | (Inr _, st1) \<Rightarrow>
              (case tokenCache st1 of
                 None \<Rightarrow> (Inl TypeError, st1)
               | Some cache \<Rightarrow>
                  (case identifier of
                     None \<Rightarrow> (Inl TypeError, st1)
                   | Some ident \<Rightarrow>
                      (let (lr, cache') = checkRateLimit ident limit window now cache;
                           st2 = st1\<lparr>tokenCache := Some cache'\<rparr>
                       in if \<not> l_success lr then
                            (Inr \<lparr>rl_success = False, rl_remaining = l_remaining lr,
                                  rl_reset = l_reset lr,
                                  rl_rateLimitedResponse =
                                    Some (tooManyRequests limit (l_remaining lr) (l_reset lr)),
                                  rl_pending = None\<rparr>, st2)
                          else if upstash_ready upstash then
                            (case ratelimit st2 of
                               None \<Rightarrow> (Inl TypeError, st2)
                             | Some client \<Rightarrow>
                                (let st3 = st2\<lparr>upstash_calls :=
                                             upstash_calls st2 @ [(client, ident)]\<rparr>
                                 in case backend client ident of
                                      Inl e \<Rightarrow> (Inl e, st3)
                                    | Inr upstashResult \<Rightarrow>
                                       (let reset' = max (l_reset lr)
                                                      (ceil_div_1000 (u_reset upstashResult));
                                            remaining = min (l_remaining lr)
                                                          (u_remaining upstashResult);
                                            success = u_success upstashResult;
                                            st4 = st3\<lparr>tokenCache := Some (lru_set later ident
                                                    \<lparr>count = limit - remaining, reset = reset'\<rparr>
                                                    cache')\<rparr>
                                        in if \<not> success then
                                             (Inr \<lparr>rl_success = success,
                                                   rl_remaining = remaining, rl_reset = reset',
                                                   rl_rateLimitedResponse =
                                                     Some (tooManyRequests limit remaining reset'),
                                                   rl_pending = Some (u_pending upstashResult)\<rparr>,
                                              st4)
                                           else
                                             (Inr \<lparr>rl_success = True, rl_remaining = remaining,
                                                   rl_reset = reset',
                                                   rl_rateLimitedResponse = None,
                                                   rl_pending = None\<rparr>, st4))))
                          else
                            (Inr \<lparr>rl_success = True, rl_remaining = l_remaining lr,
                                  rl_reset = l_reset lr, rl_rateLimitedResponse = None,
                                  rl_pending = None\<rparr>, st2))))))"

section \<open>The earlier in-memory limiters of \<^verbatim>\<open>next-rate-limit.js\<close>\<close>

text \<open>
  The first version (lines 1 to 75) keeps one \<^verbatim>\<open>Map\<close> for all keys, with a record
  \<^verbatim>\<open>{ count, lastReset }\<close> per key. A key may be \<^verbatim>\<open>undefined\<close> (\<open>None\<close>): the address is
  \<^verbatim>\<open>request.headers.get("x-forwarded-for") || request.ip\<close>.
\<close>

record window_record =
  wr_count :: int
  lastReset :: int

type_synonym rateLimitMap = "string option \<Rightarrow> window_record option"

text \<open>
  \<^verbatim>\<open>handleRateLimiting\<close> of lines 14 to 38; it returns whether the limit is exceeded. The
  reads of the clock within one call are taken at the same instant \<open>now\<close>. The record is
  changed in place, which is the update of the map at the key.
\<close>

definition handleRateLimiting_v1 ::
  "string option \<Rightarrow> int \<Rightarrow> int \<Rightarrow> int \<Rightarrow> rateLimitMap \<Rightarrow> bool \<times> rateLimitMap" where
  "handleRateLimiting_v1 key limit windowMs now m =
     (let m1 = (if m key = None then m(key \<mapsto> \<lparr>wr_count = 0, lastReset = now\<rparr>) else m);
          data = (case m1 key of None \<Rightarrow> \<lparr>wr_count = 0, lastReset = now\<rparr> | Some d \<Rightarrow> d);
          data = (if now - lastReset data > windowMs
                  then data\<lparr>wr_count := 0, lastReset := now\<rparr> else data)
      in if wr_count data \<ge> limit then (True, m1(key \<mapsto> data))
         else (False, m1(key \<mapsto> data\<lparr>wr_count := wr_count data + 1\<rparr>)))"

text \<open>
  \<^verbatim>\<open>rateLimit\<close> of lines 53 to 75. \<open>cookie\<close> is the value of the cookie \<^verbatim>\<open>session_id\<close>,
  \<open>uuid\<close> the identifier \<^verbatim>\<open>uuidv4()\<close> would give. The result is the body and status of
  the response returned (\<open>None\<close> when the function returns nothing), and the session
  identifier written to the cookie, if one was generated.
\<close>

definition rateLimit_v1 ::
  "Request \<Rightarrow> string option \<Rightarrow> string \<Rightarrow> int option \<Rightarrow> int option \<Rightarrow> int option \<Rightarrow> int \<Rightarrow>
   rateLimitMap \<Rightarrow> ((string \<times> nat) option \<times> string option) \<times> rateLimitMap" where
  "rateLimit_v1 request cookie uuid ipLimit0 sessionLimit0 windowMs0 now m =
     (let ipLimit = (case ipLimit0 of None \<Rightarrow> 300 | Some l \<Rightarrow> l);
          sessionLimit = (case sessionLimit0 of None \<Rightarrow> 30 | Some l \<Rightarrow> l);
          windowMs = (case windowMs0 of None \<Rightarrow> 15 * 1000 | Some w \<Rightarrow> w);
          ipKey = or_else (x_forwarded_for request) (ip request);
          (sessionId, setCookie) =
            (if truthy cookie then (cookie, None) else (Some uuid, Some uuid));
          (ipExceeded, m1) = handleRateLimiting_v1 ipKey ipLimit windowMs now m
      in if ipExceeded then ((Some (''Too Many Requests - IP Limit'', 429), setCookie), m1)
         else
          (let (sessionExceeded, m2) = handleRateLimiting_v1 sessionId sessionLimit windowMs now m1
           in if sessionExceeded
              then ((Some (''Too Many Requests - Session Limit'', 429), setCookie), m2)
              else ((None, setCookie), m2)))"

text \<open>
  \<^verbatim>\<open>handleRateLimiting\<close> of lines 478 to 501, the latest in-memory version: a log of the
  times of the admitted calls per key.
\<close>

definition handleRateLimiting ::
  "string \<Rightarrow> int \<Rightarrow> int \<Rightarrow> int \<Rightarrow> (string \<Rightarrow> int list option) \<Rightarrow>
   bool \<times> (string \<Rightarrow> int list option)" where
  "handleRateLimiting key limit windowMs currentTime m =
     (let m1 = (if m key = None then m(key \<mapsto> []) else m);
          timestamps = (case m1 key of None \<Rightarrow> [] | Some ts \<Rightarrow> ts);
          validTimestamps = filter (\<lambda>timestamp. currentTime - timestamp < windowMs) timestamps;
          m2 = m1(key \<mapsto> validTimestamps)
      in if int (length validTimestamps) \<ge> limit then (True, m2)
         else (False, m2(key \<mapsto> validTimestamps @ [currentTime])))"

section \<open>Example inputs\<close>

text \<open>
  Concrete inputs at which the theorems below are instantiated: a caller that passes an
  explicit identifier, a limit \<open>L\<close> and a window of ten seconds, with the shared backend
  enabled; a backend that rejects and one that admits.
\<close>

definition ex_upstash :: upstash_options where
  "ex_upstash = [(''enabled'', JBool True), (''url'', JString ''https://example.upstash.io''),
     (''token'', JString ''secret'')]"

definition ex_options :: "int \<Rightarrow> RateLimitOptions" where
  "ex_options L = \<lparr>o_request = None, o_req = None, o_identifier = Some ''user-1'',
     o_limit = Some L, o_window = Some 10, o_upstash = Some ex_upstash\<rparr>"

definition ex_env :: environment where
  "ex_env = \<lparr>UPSTASH_REDIS_REST_URL = None, UPSTASH_REDIS_REST_TOKEN = None\<rparr>"

definition ex_backend_reject :: "ratelimit_client \<Rightarrow> string \<Rightarrow> error + upstash_result" where
  "ex_backend_reject client key =
     Inr \<lparr>u_success = False, u_remaining = 0, u_reset = 9000, u_pending = 0\<rparr>"

definition ex_backend_admit :: "ratelimit_client \<Rightarrow> string \<Rightarrow> error + upstash_result" where
  "ex_backend_admit client key =
     Inr \<lparr>u_success = True, u_remaining = 2, u_reset = 9000, u_pending = 0\<rparr>"

text \<open>
  A caller with the shared backend switched off, and the same settings with the two
  properties of the \<^verbatim>\<open>upstash\<close> object in the other order.
\<close>

definition ex_off_options :: RateLimitOptions where
  "ex_off_options = \<lparr>o_request = None, o_req = None, o_identifier = Some ''user-1'',
     o_limit = Some 1, o_window = Some 10,
     o_upstash = Some [(''enabled'', JBool False), (''sliding'', JBool True)]\<rparr>"

definition ex_off_reordered_options :: RateLimitOptions where
  "ex_off_reordered_options = \<lparr>o_request = None, o_req = None, o_identifier = Some ''user-1'',
     o_limit = Some 1, o_window = Some 10,
     o_upstash = Some [(''sliding'', JBool True), (''enabled'', JBool False)]\<rparr>"

text \<open>
  The same caller without the shared backend, a \<^verbatim>\<open>Request\<close> behind two proxies, and an
  \<^verbatim>\<open>IncomingMessage\<close> without a forwarded-for header.
\<close>

definition ex_local_options :: "int \<Rightarrow> RateLimitOptions" where
  "ex_local_options L = \<lparr>o_request = None, o_req = None, o_identifier = Some ''user-1'',
     o_limit = Some L, o_window = Some 10, o_upstash = None\<rparr>"

definition ex_request_options :: RateLimitOptions where
  "ex_request_options =
     \<lparr>o_request = Some \<lparr>x_forwarded_for = Some ''203.0.113.7, 10.0.0.1 '',
                          ip = Some ''198.51.100.2'', x_real_ip = None, x_client_ip = None\<rparr>,
      o_req = None, o_identifier = None, o_limit = None, o_window = None, o_upstash = None\<rparr>"

definition ex_req_options :: RateLimitOptions where
  "ex_req_options =
     \<lparr>o_request = None,
      o_req = Some \<lparr>req_x_forwarded_for = None, remoteAddress = Some ''192.0.2.9''\<rparr>,
      o_identifier = None, o_limit = None, o_window = None, o_upstash = None\<rparr>"

text \<open>
  A cache of capacity 2 after four checks: \<open>a\<close> was inserted first and touched last, so
  \<open>b\<close> is the least recently touched key.
\<close>

definition ex_cache :: lru_cache where
  "ex_cache = apply_ops 2 10
     [CheckOp ''a'' 0, CheckOp ''a'' 1, CheckOp ''b'' 2, CheckOp ''a'' 3]
     \<lparr>lru_max = 2, lru_ttl = 10000, lru_items = []\<rparr>"

text \<open>
  A request of the first version whose address and session cookie are the same string,
  and one where they differ.
\<close>

definition ex_same_key_request :: Request where
  "ex_same_key_request = \<lparr>x_forwarded_for = Some ''s1'', ip = None, x_real_ip = None,
     x_client_ip = None\<rparr>"

definition ex_other_key_request :: Request where
  "ex_other_key_request = \<lparr>x_forwarded_for = Some ''a1'', ip = None, x_real_ip = None,
     x_client_ip = None\<rparr>"

section \<open>Properties of the local window counter\<close>

lemma map_other_keys:
  "k \<notin> fst ` set xs \<Longrightarrow> map (\<lambda>e. if fst e = k then g e else e) xs = xs"
  by (induction xs) auto

lemma filter_other_keys:
  "k \<notin> fst ` set xs \<Longrightarrow> filter (\<lambda>e. fst e \<noteq> k) xs = xs"
  by (induction xs) auto

lemma purgeStale_idem: "purgeStale now (purgeStale now c) = purgeStale now c"
  by (simp add: purgeStale_def)

lemma check_fresh:
  assumes "k \<notin> set (lru_keys (purgeStale now c))"
  shows "checkRateLimit k L w now c =
           (\<lparr>l_success = (1 \<le> L), l_remaining = (if 1 \<le> L then L - 1 else 0),
             l_reset = ceil_div_1000 (now + w)\<rparr>,
            c\<lparr>lru_items := (k, \<lparr>count = 1, reset = now + w\<rparr>, now) #
               (if lru_max c \<noteq> 0 \<and> lru_max c \<le> length (lru_items (purgeStale now c))
                then butlast (lru_items (purgeStale now c))
                else lru_items (purgeStale now c))\<rparr>)"
proof -
  let ?c1 = "purgeStale now c"
  have k: "k \<notin> fst ` set (lru_items ?c1)"
    using assms by (simp add: lru_keys_def)
  have kb: "k \<notin> fst ` set (butlast (lru_items ?c1))"
    using k by (auto dest: in_set_butlastD)
  have n: "map_of (lru_items ?c1) k = None"
    using k by (simp add: map_of_eq_None_iff)
  have g: "lru_get now k c = (None, ?c1)"
    by (simp add: lru_get_def n)
  have m: "lru_max ?c1 = lru_max c" by (simp add: purgeStale_def)
  have s: "lru_set now k v ?c1 = c\<lparr>lru_items := (k, v, now) #
               (if lru_max c \<noteq> 0 \<and> lru_max c \<le> length (lru_items ?c1)
                then butlast (lru_items ?c1) else lru_items ?c1)\<rparr>" for v
    using assms by (simp add: lru_set_def purgeStale_idem Let_def filter_other_keys [OF k] m)
      (simp add: purgeStale_def)
  show ?thesis
    by (simp add: checkRateLimit_def g s lru_mutate_def map_other_keys [OF k]
        map_other_keys [OF kb])
qed

lemma ceil_div_1000_ceiling: "ceil_div_1000 x = \<lceil>real_of_int x / 1000\<rceil>"
proof -
  have "\<lfloor>real_of_int (- x) / real_of_int 1000\<rfloor> = (- x) div 1000"
    by (rule floor_divide_of_int_eq)
  then show ?thesis
    unfolding ceil_div_1000_def ceiling_def by simp
qed

lemma ceil_div_1000_bounds: "x \<le> 1000 * ceil_div_1000 x \<and> 1000 * ceil_div_1000 x < x + 1000"
  unfolding ceil_div_1000_def
  using div_mult_mod_eq [of "- x" 1000] pos_mod_bound [of 1000 "- x"] pos_mod_sign [of 1000 "- x"]
  by linarith

lemma ceil_div_1000_mono: "x \<le> y \<Longrightarrow> ceil_div_1000 x \<le> ceil_div_1000 y"
  unfolding ceil_div_1000_def by (simp add: zdiv_mono1)

lemma ceil_div_1000_add: "ceil_div_1000 (x + 1000) = ceil_div_1000 x + 1"
  unfolding ceil_div_1000_def by simp

text \<open>
  C10. For an identifier that is not tracked at the millisecond time \<open>t\<close> (never seen, or
  expired), \<^verbatim>\<open>checkRateLimit\<close> with the window \<open>w\<close> (in seconds) stores the entry with
  \<open>reset = t + w\<close>, a millisecond time plus a number of seconds, and reports
  \<open>reset = \<lceil>(t + w) / 1000\<rceil>\<close>: in milliseconds the reported reset lies less than a second
  after \<open>t + w\<close>. So for \<open>0 \<le> w < 1000\<close> the reported second is the second of the call
  itself, \<open>\<lceil>t / 1000\<rceil>\<close> in the rounding the function uses, or the one after it: not \<open>w\<close>
  seconds later.
\<close>

theorem checkRateLimit_reset_unit_mix:
  assumes "k \<notin> set (lru_keys (purgeStale t c))"
  shows "map_of (lru_items (snd (checkRateLimit k L w t c))) k =
           Some (\<lparr>count = 1, reset = t + w\<rparr>, t) \<and>
         l_reset (fst (checkRateLimit k L w t c)) = ceil_div_1000 (t + w) \<and>
         t + w \<le> 1000 * l_reset (fst (checkRateLimit k L w t c)) \<and>
         1000 * l_reset (fst (checkRateLimit k L w t c)) < t + w + 1000 \<and>
         (0 \<le> w \<and> w < 1000 \<longrightarrow>
            ceil_div_1000 t \<le> l_reset (fst (checkRateLimit k L w t c)) \<and>
            l_reset (fst (checkRateLimit k L w t c)) \<le> ceil_div_1000 t + 1)"
proof -
  have "0 \<le> w \<Longrightarrow> ceil_div_1000 t \<le> ceil_div_1000 (t + w)"
    by (rule ceil_div_1000_mono) simp
  moreover have "w < 1000 \<Longrightarrow> ceil_div_1000 (t + w) \<le> ceil_div_1000 t + 1"
    using ceil_div_1000_mono [of "t + w" "t + 1000"] by (simp add: ceil_div_1000_add)
  moreover have "t + w \<le> 1000 * ceil_div_1000 (t + w)"
    and "1000 * ceil_div_1000 (t + w) < t + w + 1000"
    using ceil_div_1000_bounds [of "t + w"] by simp_all
  ultimately show ?thesis
    by (simp add: check_fresh [OF assms])
qed

theorem checkRateLimit_reset_unit_mix_witness:
  "map_of (lru_items (snd (checkRateLimit ''a'' 5 10 1700000000500
      \<lparr>lru_max = 5, lru_ttl = 10000, lru_items = []\<rparr>))) ''a'' =
     Some (\<lparr>count = 1, reset = 1700000000510\<rparr>, 1700000000500) \<and>
   l_reset (fst (checkRateLimit ''a'' 5 10 1700000000500
      \<lparr>lru_max = 5, lru_ttl = 10000, lru_items = []\<rparr>)) = 1700000001 \<and>
   (0::int) \<le> 10 \<and> (10::int) < 1000 \<and>
   ceil_div_1000 1700000000500 = 1700000001 \<and>
   ceil_div_1000 1700000000500 \<le> l_reset (fst (checkRateLimit ''a'' 5 10 1700000000500
      \<lparr>lru_max = 5, lru_ttl = 10000, lru_items = []\<rparr>)) \<and>
   l_reset (fst (checkRateLimit ''a'' 5 10 1700000000500
      \<lparr>lru_max = 5, lru_ttl = 10000, lru_items = []\<rparr>)) \<le> ceil_div_1000 1700000000500 + 1"
proof -
  have h: "''a'' \<notin> set (lru_keys (purgeStale 1700000000500
      \<lparr>lru_max = 5, lru_ttl = 10000, lru_items = []\<rparr>))"
    by (simp add: lru_keys_def purgeStale_def)
  show ?thesis
    using checkRateLimit_reset_unit_mix [OF h, of 5 10]
    by (simp add: ceil_div_1000_def)
qed

section \<open>Properties of the decision\<close>

text \<open>Unfolding the model on concrete inputs.\<close>

lemmas ex_defs = ex_options_def ex_upstash_def ex_env_def ex_backend_reject_def ex_backend_admit_def
  ex_local_options_def ex_off_options_def ex_off_reordered_options_def
  effective_config_def default_upstash_def initial_state_def Let_def get_prop_def js_truthy_def
  js_or_def env_value_def
lemmas config_defs = config_changed_def JSON_stringify_def upstash_ready_def get_prop_def js_truthy_def
  js_or_def env_value_def
lemmas run_defs = rateLimit_def initialize_def LRUCache_new_def config_defs new_client_def
  resolveIdentifier_def truthy_def or_else_def checkRateLimit_def lru_get_def lru_set_def
  lru_mutate_def purgeStale_def isStale_def lru_keys_def ceil_div_1000_def tooManyRequests_def

lemma initialize_upstash_calls:
  "upstash_calls (snd (initialize cf st)) = upstash_calls st"
  by (simp add: initialize_def Let_def split: sum.splits)

text \<open>
  C8. A call with neither \<^verbatim>\<open>req\<close> nor \<^verbatim>\<open>request\<close> and without an identifier (absent or
  the empty string) throws the error of line 101. The state is returned as it was: nothing
  is initialised and nothing is counted.
\<close>

theorem rateLimit_requires_request_or_identifier:
  assumes "o_req opts = None" and "o_request opts = None" and "\<not> truthy (o_identifier opts)"
  shows "rateLimit opts env backend now later st =
           (Inl (Error ''Either Request or Identifier is Required''), st)"
  using assms by (simp add: rateLimit_def)

theorem rateLimit_requires_request_or_identifier_witness:
  "rateLimit \<lparr>o_request = None, o_req = None, o_identifier = Some [], o_limit = None,
       o_window = None, o_upstash = Some ex_upstash\<rparr> ex_env ex_backend_admit 0 1 initial_state =
     (Inl (Error ''Either Request or Identifier is Required''), initial_state)"
proof -
  let ?opts = "\<lparr>o_request = None, o_req = None, o_identifier = Some [], o_limit = None,
       o_window = None, o_upstash = Some ex_upstash\<rparr>"
  have h1: "o_req ?opts = None" and h2: "o_request ?opts = None"
    and h3: "\<not> truthy (o_identifier ?opts)"
    by (simp_all add: truthy_def)
  show ?thesis
    by (rule rateLimit_requires_request_or_identifier [OF h1 h2 h3])
qed

text \<open>
  C3. When the local check of a call rejects, \<^verbatim>\<open>rateLimit\<close> returns \<open>success = false\<close>
  with the 429 response carrying the local \<open>remaining\<close> and \<open>reset\<close>, whatever the upstash
  settings are, and \<^verbatim>\<open>ratelimit.limit\<close> is not called: the log of calls to the shared
  backend is the one before the call. The instance that follows is a call with upstash
  enabled, a url and a token.
\<close>

theorem rateLimit_local_reject_short_circuit:
  assumes "\<not> (o_req opts = None \<and> o_request opts = None \<and> \<not> truthy (o_identifier opts))"
    and "initialize (effective_config opts env) st = (Inr (), st1)"
    and "tokenCache st1 = Some cache"
    and "resolveIdentifier opts = Some ident"
    and "checkRateLimit ident (cfg_limit (effective_config opts env))
           (cfg_window (effective_config opts env)) now cache = (lr, cache')"
    and "\<not> l_success lr"
  shows "rateLimit opts env backend now later st =
           (Inr \<lparr>rl_success = False, rl_remaining = l_remaining lr, rl_reset = l_reset lr,
                 rl_rateLimitedResponse =
                   Some \<lparr>status = 429, message = ''Too Many Requests'',
                         x_ratelimit_limit = cfg_limit (effective_config opts env),
                         x_ratelimit_remaining = l_remaining lr,
                         x_ratelimit_reset = l_reset lr\<rparr>,
                 rl_pending = None\<rparr>,
            st1\<lparr>tokenCache := Some cache'\<rparr>) \<and>
         upstash_calls (snd (rateLimit opts env backend now later st)) = upstash_calls st"
proof -
  have calls: "upstash_calls st1 = upstash_calls st"
    using initialize_upstash_calls [of "effective_config opts env" st] assms(2) by simp
  have "rateLimit opts env backend now later st =
           (Inr \<lparr>rl_success = False, rl_remaining = l_remaining lr, rl_reset = l_reset lr,
                 rl_rateLimitedResponse =
                   Some (tooManyRequests (cfg_limit (effective_config opts env))
                     (l_remaining lr) (l_reset lr)),
                 rl_pending = None\<rparr>,
            st1\<lparr>tokenCache := Some cache'\<rparr>)"
    using assms unfolding rateLimit_def by (simp add: Let_def)
  then show ?thesis by (simp add: tooManyRequests_def calls)
qed

theorem rateLimit_local_reject_short_circuit_witness:
  "fst (rateLimit (ex_options 1) ex_env ex_backend_admit 5 6
      (snd (rateLimit (ex_options 1) ex_env ex_backend_admit 0 1 initial_state))) =
     Inr \<lparr>rl_success = False, rl_remaining = 0, rl_reset = 1,
          rl_rateLimitedResponse =
            Some \<lparr>status = 429, message = ''Too Many Requests'', x_ratelimit_limit = 1,
                  x_ratelimit_remaining = 0, x_ratelimit_reset = 1\<rparr>,
          rl_pending = None\<rparr> \<and>
   upstash_ready (cfg_upstash (effective_config (ex_options 1) ex_env)) \<and>
   upstash_calls (snd (rateLimit (ex_options 1) ex_env ex_backend_admit 5 6
      (snd (rateLimit (ex_options 1) ex_env ex_backend_admit 0 1 initial_state)))) =
     upstash_calls (snd (rateLimit (ex_options 1) ex_env ex_backend_admit 0 1 initial_state))"
proof -
  let ?cf = "effective_config (ex_options 1) ex_env"
  let ?st = "snd (rateLimit (ex_options 1) ex_env ex_backend_admit 0 1 initial_state)"
  let ?cache = "\<lparr>lru_max = 1, lru_ttl = 10000,
      lru_items = [(''user-1'', \<lparr>count = 1, reset = 9\<rparr>, 1)]\<rparr>"
  let ?lr = "\<lparr>l_success = False, l_remaining = 0, l_reset = 1\<rparr>"
  have st: "?st = \<lparr>currentConfig = Some ?cf, tokenCache = Some ?cache,
      ratelimit = Some (new_client ?cf), upstash_calls = [(new_client ?cf, ''user-1'')]\<rparr>"
    by (simp add: ex_defs run_defs)
  have h1: "\<not> (o_req (ex_options 1) = None \<and> o_request (ex_options 1) = None \<and>
      \<not> truthy (o_identifier (ex_options 1)))"
    by (simp add: ex_defs truthy_def)
  have h2: "initialize ?cf ?st = (Inr (), ?st)"
    unfolding st by (simp add: initialize_def config_changed_def)
  have h3: "tokenCache ?st = Some ?cache"
    unfolding st by simp
  have h4: "resolveIdentifier (ex_options 1) = Some ''user-1''"
    by (simp add: ex_defs run_defs)
  have h5: "checkRateLimit ''user-1'' (cfg_limit ?cf) (cfg_window ?cf) 5 ?cache =
      (?lr, snd (checkRateLimit ''user-1'' (cfg_limit ?cf) (cfg_window ?cf) 5 ?cache))"
    by (simp add: ex_defs run_defs)
  have h6: "\<not> l_success ?lr" by simp
  have h7: "upstash_ready (cfg_upstash ?cf)"
    by (simp add: ex_defs run_defs)
  have cf: "cfg_limit ?cf = 1" by (simp add: ex_defs)
  show ?thesis
    using rateLimit_local_reject_short_circuit [OF h1 h2 h3 h4 h5 h6, of ex_backend_admit 6] h7
    by (simp add: cf)
qed

text \<open>
  C2. When the local check admits, upstash is enabled with a url and a token, and the
  client answers, the result has \<open>remaining\<close> the minimum of the local and the shared
  value, \<open>reset\<close> the maximum of the local reset and the shared reset in seconds, rounded
  up, and \<open>success\<close> the success of the shared backend, which is also its conjunction with
  the local verdict; the 429 response is present exactly when the shared backend rejects.
\<close>

theorem rateLimit_merges_shared_verdict:
  assumes "\<not> (o_req opts = None \<and> o_request opts = None \<and> \<not> truthy (o_identifier opts))"
    and "initialize (effective_config opts env) st = (Inr (), st1)"
    and "tokenCache st1 = Some cache"
    and "resolveIdentifier opts = Some ident"
    and "checkRateLimit ident (cfg_limit (effective_config opts env))
           (cfg_window (effective_config opts env)) now cache = (lr, cache')"
    and "l_success lr"
    and "upstash_ready (cfg_upstash (effective_config opts env))"
    and "ratelimit st1 = Some client"
    and "backend client ident = Inr u"
  shows "\<exists>r st'. rateLimit opts env backend now later st = (Inr r, st') \<and>
           rl_remaining r = min (l_remaining lr) (u_remaining u) \<and>
           rl_reset r = max (l_reset lr) (ceil_div_1000 (u_reset u)) \<and>
           rl_success r = u_success u \<and>
           rl_success r = (l_success lr \<and> u_success u) \<and>
           (rl_rateLimitedResponse r = None) = u_success u \<and>
           upstash_calls st' = upstash_calls st @ [(client, ident)]"
proof -
  have calls: "upstash_calls st1 = upstash_calls st"
    using initialize_upstash_calls [of "effective_config opts env" st] assms(2) by simp
  show ?thesis
    using assms unfolding rateLimit_def by (simp add: Let_def calls)
qed

theorem rateLimit_merges_shared_verdict_witness:
  "\<exists>r st'. rateLimit (ex_options 5) ex_env ex_backend_reject 0 1 initial_state = (Inr r, st') \<and>
     rl_remaining r = 0 \<and> rl_reset r = 9 \<and> \<not> rl_success r \<and>
     upstash_calls st' = [(new_client (effective_config (ex_options 5) ex_env), ''user-1'')]"
proof -
  let ?cf = "effective_config (ex_options 5) ex_env"
  let ?st1 = "snd (initialize ?cf initial_state)"
  let ?cache = "\<lparr>lru_max = 5, lru_ttl = 10000, lru_items = []\<rparr>"
  let ?lr = "\<lparr>l_success = True, l_remaining = 4, l_reset = 1\<rparr>"
  let ?u = "\<lparr>u_success = False, u_remaining = 0, u_reset = 9000, u_pending = 0\<rparr>"
  have h1: "\<not> (o_req (ex_options 5) = None \<and> o_request (ex_options 5) = None \<and>
      \<not> truthy (o_identifier (ex_options 5)))"
    by (simp add: ex_defs truthy_def)
  have h2: "initialize ?cf initial_state = (Inr (), ?st1)"
    by (simp add: ex_defs run_defs)
  have h3: "tokenCache ?st1 = Some ?cache"
    by (simp add: ex_defs run_defs)
  have h4: "resolveIdentifier (ex_options 5) = Some ''user-1''"
    by (simp add: ex_defs run_defs)
  have h5: "checkRateLimit ''user-1'' (cfg_limit ?cf) (cfg_window ?cf) 0 ?cache =
      (?lr, snd (checkRateLimit ''user-1'' (cfg_limit ?cf) (cfg_window ?cf) 0 ?cache))"
    by (simp add: ex_defs run_defs)
  have h6: "l_success ?lr" by simp
  have h7: "upstash_ready (cfg_upstash ?cf)"
    by (simp add: ex_defs run_defs)
  have h8: "ratelimit ?st1 = Some (new_client ?cf)"
    by (simp add: ex_defs initialize_def LRUCache_new_def config_defs)
  have h9: "ex_backend_reject (new_client ?cf) ''user-1'' = Inr ?u"
    by (simp add: ex_backend_reject_def)
  show ?thesis
    using rateLimit_merges_shared_verdict [where backend = ex_backend_reject and later = 1,
        OF h1 h2 h3 h4 h5 h6 h7 h8 h9]
    by (simp add: initial_state_def ceil_div_1000_def) blast
qed

section \<open>Properties of the identifier\<close>

lemma split_comma_not_Nil: "split_comma s \<noteq> []"
  by (induction s) (auto split: list.splits)

lemma split_comma_no_comma: "CHR '','' \<notin> set s \<Longrightarrow> split_comma s = [s]"
  by (induction s) auto

lemma split_comma_comma: "CHR '','' \<in> set s \<Longrightarrow> 2 \<le> length (split_comma s)"
proof (induction s)
  case Nil
  then show ?case by simp
next
  case (Cons ch cs)
  show ?case
  proof (cases "ch = CHR '',''")
    case True
    then show ?thesis using split_comma_not_Nil [of cs] by (cases "split_comma cs") auto
  next
    case False
    then have "2 \<le> length (split_comma cs)" using Cons by simp
    then show ?thesis using False by (cases "split_comma cs") auto
  qed
qed

lemma last_split_comma:
  "last (split_comma s) = rev (takeWhile (\<lambda>ch. ch \<noteq> CHR '','') (rev s))"
proof (induction s)
  case Nil
  then show ?case by simp
next
  case (Cons ch cs)
  let ?P = "\<lambda>ch. ch \<noteq> CHR '',''"
  show ?case
  proof (cases "ch = CHR '',''")
    case True
    have "last (split_comma (ch # cs)) = last (split_comma cs)"
      using True split_comma_not_Nil [of cs] by simp
    also have "\<dots> = rev (takeWhile ?P (rev cs))" by (rule Cons.IH)
    also have "\<dots> = rev (takeWhile ?P (rev (ch # cs)))"
      using True by (simp add: takeWhile_append)
    finally show ?thesis .
  next
    case False
    show ?thesis
    proof (cases "CHR '','' \<in> set cs")
      case True
      then obtain x y ys where sp: "split_comma cs = x # y # ys"
        using split_comma_comma [of cs] by (cases "split_comma cs") (auto simp: Suc_le_eq neq_Nil_conv)
      have "last (split_comma (ch # cs)) = last (split_comma cs)"
        using False sp by simp
      also have "\<dots> = rev (takeWhile ?P (rev cs))" by (rule Cons.IH)
      also have "\<dots> = rev (takeWhile ?P (rev (ch # cs)))"
        using True by (auto simp: takeWhile_append)
      finally show ?thesis .
    next
      case no: False
      then show ?thesis using False
        by (simp add: split_comma_no_comma takeWhile_append)
    qed
  qed
qed

lemma forwarded_pop_last_entry: "forwarded_pop h = last_forwarded_entry h"
proof (cases h)
  case None
  then show ?thesis by (simp add: forwarded_pop_def last_forwarded_entry_def)
next
  case (Some s)
  have "pop (split_comma s) = Some (last (split_comma s))"
    using split_comma_not_Nil [of s]
    by (cases "split_comma s" rule: rev_cases) (auto simp: pop_def)
  then show ?thesis
    using Some by (simp add: forwarded_pop_def last_forwarded_entry_def last_split_comma)
qed

lemma or_else_first_present: "or_else a (first_present (b # bs)) = first_present (a # b # bs)"
  by (simp add: or_else_def)

lemma truthy_loopback: "truthy (Some ''127.0.0.1'')"
  by (simp add: truthy_def)

lemma first_present_truthy: "truthy (last as) \<Longrightarrow> as \<noteq> [] \<Longrightarrow> truthy (first_present as)"
  by (induction as) (auto split: if_splits)

lemma or_else_left: "truthy a \<Longrightarrow> or_else a b = a"
  by (simp add: or_else_def)

text \<open>
  C4. The key of a call is resolved in this order: the identifier the caller passed, if it
  is present; otherwise the last entry of the \<^verbatim>\<open>x-forwarded-for\<close> list, trimmed; otherwise
  a direct address, which is \<^verbatim>\<open>socket.remoteAddress\<close> for an \<^verbatim>\<open>IncomingMessage\<close> and
  \<^verbatim>\<open>request.ip\<close>, then \<^verbatim>\<open>x-real-ip\<close>, then \<^verbatim>\<open>x-client-ip\<close> for a \<^verbatim>\<open>Request\<close>; otherwise
  \<^verbatim>\<open>127.0.0.1\<close>. When both kinds of request are passed the \<^verbatim>\<open>IncomingMessage\<close> decides;
  without a request the identifier is the key.
\<close>

theorem resolveIdentifier_precedence:
  "(o_req opts = Some r \<longrightarrow>
      resolveIdentifier opts =
        first_present [o_identifier opts, last_forwarded_entry (req_x_forwarded_for r),
          remoteAddress r, Some ''127.0.0.1'']) \<and>
   (o_req opts = None \<longrightarrow> o_request opts = Some q \<longrightarrow>
      resolveIdentifier opts =
        first_present [o_identifier opts, last_forwarded_entry (x_forwarded_for q),
          ip q, x_real_ip q, x_client_ip q, Some ''127.0.0.1'']) \<and>
   (o_req opts = None \<longrightarrow> o_request opts = None \<longrightarrow>
      resolveIdentifier opts = o_identifier opts)"
proof (intro conjI impI)
  assume r: "o_req opts = Some r"
  let ?x = "first_present [o_identifier opts, last_forwarded_entry (req_x_forwarded_for r),
          remoteAddress r, Some ''127.0.0.1'']"
  let ?chain = "or_else (or_else (or_else (o_identifier opts)
      (forwarded_pop (req_x_forwarded_for r))) (remoteAddress r)) (Some ''127.0.0.1'')"
  have x: "?chain = ?x"
    by (simp add: or_else_def forwarded_pop_last_entry truthy_loopback)
  have "truthy ?x" by (rule first_present_truthy) (simp_all add: truthy_loopback)
  then have t: "truthy ?chain" by (simp only: x)
  have "resolveIdentifier opts = ?chain"
  proof (cases "o_request opts")
    case None
    then show ?thesis using r by (simp add: resolveIdentifier_def)
  next
    case (Some request)
    have "resolveIdentifier opts =
        or_else (or_else (or_else (or_else (or_else ?chain
          (forwarded_pop (x_forwarded_for request))) (ip request))
          (x_real_ip request)) (x_client_ip request)) (Some ''127.0.0.1'')"
      using r Some by (simp add: resolveIdentifier_def)
    also have "\<dots> = ?chain"
      by (simp only: or_else_left [OF t])
    finally show ?thesis .
  qed
  then show "resolveIdentifier opts = ?x" by (simp only: x)
next
  assume "o_req opts = None" and "o_request opts = Some q"
  then show "resolveIdentifier opts =
        first_present [o_identifier opts, last_forwarded_entry (x_forwarded_for q),
          ip q, x_real_ip q, x_client_ip q, Some ''127.0.0.1'']"
    by (simp add: resolveIdentifier_def or_else_def forwarded_pop_last_entry truthy_loopback)
next
  assume "o_req opts = None" and "o_request opts = None"
  then show "resolveIdentifier opts = o_identifier opts"
    by (simp add: resolveIdentifier_def)
qed

theorem resolveIdentifier_precedence_witness:
  "resolveIdentifier ex_request_options = Some ''10.0.0.1'' \<and>
   resolveIdentifier ex_req_options = Some ''192.0.2.9'' \<and>
   resolveIdentifier (ex_options 1) = Some ''user-1''"
proof -
  let ?q = "\<lparr>x_forwarded_for = Some ''203.0.113.7, 10.0.0.1 '',
             ip = Some ''198.51.100.2'', x_real_ip = None, x_client_ip = None\<rparr>"
  let ?r = "\<lparr>req_x_forwarded_for = None, remoteAddress = Some ''192.0.2.9''\<rparr>"
  have q1: "o_req ex_request_options = None" and q2: "o_request ex_request_options = Some ?q"
    by (simp_all add: ex_request_options_def)
  have r1: "o_req ex_req_options = Some ?r"
    by (simp add: ex_req_options_def)
  have i1: "o_req (ex_options 1) = None" and i2: "o_request (ex_options 1) = None"
    by (simp_all add: ex_options_def)
  have a: "resolveIdentifier ex_request_options =
      first_present [o_identifier ex_request_options, last_forwarded_entry (x_forwarded_for ?q),
        ip ?q, x_real_ip ?q, x_client_ip ?q, Some ''127.0.0.1'']"
    using resolveIdentifier_precedence [of ex_request_options _ ?q] q1 q2 by blast
  have b: "resolveIdentifier ex_req_options =
      first_present [o_identifier ex_req_options, last_forwarded_entry (req_x_forwarded_for ?r),
        remoteAddress ?r, Some ''127.0.0.1'']"
    using resolveIdentifier_precedence [of ex_req_options ?r] r1 by blast
  have c: "resolveIdentifier (ex_options 1) = o_identifier (ex_options 1)"
    using resolveIdentifier_precedence [of "ex_options 1"] i1 i2 by blast
  show ?thesis
    unfolding a b c
    by (simp add: ex_request_options_def ex_req_options_def ex_options_def truthy_def
        last_forwarded_entry_def trim_def isWhiteSpace_def)
qed

text \<open>
  Past the guard of line 101 the resolved identifier is a string that is not empty: the
  branch of the model for a missing identifier is never taken.
\<close>

lemma truthy_or_else_loopback: "truthy (or_else a (Some ''127.0.0.1''))"
  by (simp add: or_else_def truthy_loopback)

lemma resolveIdentifier_truthy:
  assumes "\<not> (o_req opts = None \<and> o_request opts = None \<and> \<not> truthy (o_identifier opts))"
  shows "truthy (resolveIdentifier opts)"
proof (cases "o_request opts")
  case (Some request)
  then show ?thesis
    by (simp add: resolveIdentifier_def Let_def truthy_or_else_loopback)
next
  case None
  show ?thesis
  proof (cases "o_req opts")
    case (Some req)
    then show ?thesis
      using None by (simp add: resolveIdentifier_def Let_def truthy_or_else_loopback)
  next
    case n: None
    then show ?thesis using None assms by (simp add: resolveIdentifier_def)
  qed
qed

section \<open>Properties of the initialisation\<close>

text \<open>
  C9, as amended. \<^verbatim>\<open>initialize\<close> compares the \<^verbatim>\<open>JSON.stringify\<close> text of the
  configuration of the call with the text of the active one. When the texts are equal (the
  same limit and window, and the same defined properties of \<^verbatim>\<open>upstash\<close> with the same
  values in the same order) it changes nothing: the cache and the client persist with
  their state. When they differ, also when only the order of the properties differs, the
  configuration becomes the active one; the cache is replaced by a new, empty one, unless
  its constructor rejects the limit and the window, in which case the error is thrown and
  the cache and the client stay as they were; and the client of the shared backend is built
  anew only when upstash is enabled with a url and a token, and otherwise the previous
  client is left in place.
\<close>

theorem initialize_reconstruction:
  "(\<not> config_changed cf st \<longrightarrow> initialize cf st = (Inr (), st)) \<and>
   (config_changed cf st \<longrightarrow>
      initialize cf st =
        (if cfg_limit cf < 0 \<or> cfg_window cf < 0 \<or> (cfg_limit cf = 0 \<and> cfg_window cf = 0)
         then (Inl TypeError, st\<lparr>currentConfig := Some cf\<rparr>)
         else (Inr (),
               st\<lparr>currentConfig := Some cf,
                  tokenCache := Some \<lparr>lru_max = nat (cfg_limit cf),
                                       lru_ttl = cfg_window cf * 1000, lru_items = []\<rparr>,
                  ratelimit := (if upstash_ready (cfg_upstash cf) then Some (new_client cf)
                                else ratelimit st)\<rparr>)))"
  by (simp add: initialize_def LRUCache_new_def)

theorem initialize_reconstruction_witness:
  "initialize (effective_config (ex_options 5) ex_env)
      (snd (initialize (effective_config (ex_options 5) ex_env) initial_state)) =
     (Inr (), snd (initialize (effective_config (ex_options 5) ex_env) initial_state)) \<and>
   tokenCache (snd (initialize (effective_config (ex_options 7) ex_env)
      (snd (rateLimit (ex_options 5) ex_env ex_backend_admit 0 1 initial_state)))) =
     Some \<lparr>lru_max = 7, lru_ttl = 10000, lru_items = []\<rparr> \<and>
   ratelimit (snd (initialize (effective_config (ex_options 7) ex_env)
      (snd (rateLimit (ex_options 5) ex_env ex_backend_admit 0 1 initial_state)))) =
     Some (new_client (effective_config (ex_options 7) ex_env))"
proof -
  let ?c5 = "effective_config (ex_options 5) ex_env"
  let ?c7 = "effective_config (ex_options 7) ex_env"
  let ?s5 = "snd (initialize ?c5 initial_state)"
  let ?t5 = "snd (rateLimit (ex_options 5) ex_env ex_backend_admit 0 1 initial_state)"
  have same: "\<not> config_changed ?c5 ?s5"
    by (simp add: ex_defs run_defs)
  have differs: "config_changed ?c7 ?t5"
    by (simp add: ex_defs run_defs)
  have ok: "\<not> (cfg_limit ?c7 < 0 \<or> cfg_window ?c7 < 0 \<or> (cfg_limit ?c7 = 0 \<and> cfg_window ?c7 = 0))"
    by (simp add: ex_defs)
  have ready: "upstash_ready (cfg_upstash ?c7)"
    by (simp add: ex_defs run_defs)
  have a: "initialize ?c5 ?s5 = (Inr (), ?s5)"
    using initialize_reconstruction [of ?c5 ?s5] same by blast
  have "initialize ?c7 ?t5 =
        (if cfg_limit ?c7 < 0 \<or> cfg_window ?c7 < 0 \<or> (cfg_limit ?c7 = 0 \<and> cfg_window ?c7 = 0)
         then (Inl TypeError, ?t5\<lparr>currentConfig := Some ?c7\<rparr>)
         else (Inr (),
               ?t5\<lparr>currentConfig := Some ?c7,
                  tokenCache := Some \<lparr>lru_max = nat (cfg_limit ?c7),
                                       lru_ttl = cfg_window ?c7 * 1000, lru_items = []\<rparr>,
                  ratelimit := (if upstash_ready (cfg_upstash ?c7) then Some (new_client ?c7)
                                else ratelimit ?t5)\<rparr>))"
    using initialize_reconstruction [of ?c7 ?t5] differs by blast
  then have b: "initialize ?c7 ?t5 =
        (Inr (),
         ?t5\<lparr>currentConfig := Some ?c7,
            tokenCache := Some \<lparr>lru_max = nat (cfg_limit ?c7),
                                 lru_ttl = cfg_window ?c7 * 1000, lru_items = []\<rparr>,
            ratelimit := Some (new_client ?c7)\<rparr>)"
    using ok ready by (simp only: if_False if_True)
  have lim: "nat (cfg_limit ?c7) = 7" "cfg_window ?c7 * 1000 = 10000"
    by (simp_all add: ex_defs)
  show ?thesis
    unfolding b using a by (simp add: lim)
qed

text \<open>
  The claim as stated fails in both halves. A changed configuration does not always
  reconstruct the shared client: after a call with upstash enabled and limit 5, a call with
  limit 7 and no upstash settings changes the configuration and leaves the client built
  for limit 5 in place. And a configuration with the same settings is not always left
  untouched: with limit 1 and the properties \<^verbatim>\<open>enabled\<close> and \<^verbatim>\<open>sliding\<close> of the
  \<^verbatim>\<open>upstash\<close> object in one order in the first call and in the other order in the
  second, the second call, one millisecond later, finds a new cache and is admitted, where
  a second call with the properties in the same order is rejected.
\<close>

theorem initialize_keeps_client_counterexample:
  "currentConfig (snd (rateLimit (ex_options 5) ex_env ex_backend_admit 0 1 initial_state)) \<noteq>
     Some (effective_config (ex_local_options 7) ex_env) \<and>
   ratelimit (snd (rateLimit (ex_options 5) ex_env ex_backend_admit 0 1 initial_state)) =
     Some (new_client (effective_config (ex_options 5) ex_env)) \<and>
   ratelimit (snd (rateLimit (ex_local_options 7) ex_env ex_backend_admit 2 3
       (snd (rateLimit (ex_options 5) ex_env ex_backend_admit 0 1 initial_state)))) =
     Some (new_client (effective_config (ex_options 5) ex_env)) \<and>
   rc_limit (new_client (effective_config (ex_options 5) ex_env)) = 5 \<and>
   cfg_limit (effective_config (ex_local_options 7) ex_env) = 7 \<and>
   cfg_limit (effective_config ex_off_options ex_env) =
     cfg_limit (effective_config ex_off_reordered_options ex_env) \<and>
   cfg_window (effective_config ex_off_options ex_env) =
     cfg_window (effective_config ex_off_reordered_options ex_env) \<and>
   set (cfg_upstash (effective_config ex_off_options ex_env)) =
     set (cfg_upstash (effective_config ex_off_reordered_options ex_env)) \<and>
   fst (rateLimit ex_off_options ex_env ex_backend_admit 0 0 initial_state) =
     Inr \<lparr>rl_success = True, rl_remaining = 0, rl_reset = 1, rl_rateLimitedResponse = None,
          rl_pending = None\<rparr> \<and>
   fst (rateLimit ex_off_options ex_env ex_backend_admit 1 1
       (snd (rateLimit ex_off_options ex_env ex_backend_admit 0 0 initial_state))) =
     Inr \<lparr>rl_success = False, rl_remaining = 0, rl_reset = 1,
          rl_rateLimitedResponse = Some (tooManyRequests 1 0 1), rl_pending = None\<rparr> \<and>
   fst (rateLimit ex_off_reordered_options ex_env ex_backend_admit 1 1
       (snd (rateLimit ex_off_options ex_env ex_backend_admit 0 0 initial_state))) =
     Inr \<lparr>rl_success = True, rl_remaining = 0, rl_reset = 1, rl_rateLimitedResponse = None,
          rl_pending = None\<rparr> \<and>
   tokenCache (snd (initialize (effective_config ex_off_reordered_options ex_env)
       (snd (rateLimit ex_off_options ex_env ex_backend_admit 0 0 initial_state)))) =
     Some \<lparr>lru_max = 1, lru_ttl = 10000, lru_items = []\<rparr>"
  by (simp add: ex_defs run_defs) (auto simp: ex_defs run_defs)

section \<open>Capacity and expiry of the local window counter\<close>

lemma distinct_keys_filter:
  "distinct (map fst xs) \<Longrightarrow> distinct (map fst (filter P xs))"
  by (rule distinct_map_filter)

lemma length_filter_other_keys:
  "k \<in> fst ` set xs \<Longrightarrow> length (filter (\<lambda>e. fst e \<noteq> k) xs) < length xs"
  by (auto intro: length_filter_less)

lemma purgeStale_inv: "lru_inv c \<Longrightarrow> lru_inv (purgeStale now c)"
  unfolding lru_inv_def lru_keys_def purgeStale_def
  by (auto simp: distinct_map_filter intro: le_trans [OF length_filter_le])

lemma purgeStale_max [simp]: "lru_max (purgeStale now c) = lru_max c"
  and purgeStale_ttl [simp]: "lru_ttl (purgeStale now c) = lru_ttl c"
  by (simp_all add: purgeStale_def)

lemma lru_get_inv:
  assumes "lru_inv c"
  shows "lru_inv (snd (lru_get now k c))"
proof -
  let ?c1 = "purgeStale now c"
  have inv1: "lru_inv ?c1" by (rule purgeStale_inv [OF assms])
  show ?thesis
  proof (cases "map_of (lru_items ?c1) k")
    case None
    then show ?thesis using inv1 by (simp add: lru_get_def)
  next
    case (Some vs)
    obtain v s where vs: "vs = (v, s)" by (cases vs)
    have k: "k \<in> fst ` set (lru_items ?c1)"
      using Some by (metis map_of_eq_None_iff option.distinct(1))
    have len: "Suc (length (filter (\<lambda>e. fst e \<noteq> k) (lru_items ?c1))) \<le> length (lru_items ?c1)"
      using length_filter_other_keys [OF k] by simp
    have d: "distinct (map fst (filter (\<lambda>e. fst e \<noteq> k) (lru_items ?c1)))"
      using inv1 by (simp add: lru_inv_def lru_keys_def distinct_map_filter)
    have "lru_inv (?c1\<lparr>lru_items := (k, v, s) # filter (\<lambda>e. fst e \<noteq> k) (lru_items ?c1)\<rparr>)"
      using inv1 len d unfolding lru_inv_def lru_keys_def by auto
    then show ?thesis using Some vs by (simp add: lru_get_def Let_def)
  qed
qed

lemma lru_set_inv:
  assumes "lru_inv c"
  shows "lru_inv (lru_set now k v c)"
proof -
  let ?c1 = "purgeStale now c"
  let ?others = "filter (\<lambda>e. fst e \<noteq> k) (lru_items ?c1)"
  let ?full = "k \<notin> set (lru_keys ?c1) \<and> lru_max ?c1 \<noteq> 0 \<and> lru_max ?c1 \<le> length ?others"
  define kept where "kept = (if ?full then butlast ?others else ?others)"
  have inv1: "lru_inv ?c1" by (rule purgeStale_inv [OF assms])
  have res: "lru_set now k v c = ?c1\<lparr>lru_items := (k, v, now) # kept\<rparr>"
    by (simp only: lru_set_def Let_def kept_def)
  have d: "distinct (map fst ?others)"
    using inv1 by (simp add: lru_inv_def lru_keys_def distinct_map_filter)
  have dk: "distinct (map fst kept)"
    unfolding kept_def using d by (simp add: map_butlast distinct_butlast)
  have nk: "k \<notin> fst ` set ?others" by auto
  have nkk: "k \<notin> fst ` set kept"
    unfolding kept_def using nk by (auto dest: in_set_butlastD)
  have bound: "lru_max c = 0 \<or> length (lru_items ?c1) \<le> lru_max c"
    using inv1 by (simp add: lru_inv_def)
  have lo: "lru_max c = 0 \<or> length ?others \<le> lru_max c"
    using bound le_trans [OF length_filter_le] by blast
  have len: "lru_max c = 0 \<or> Suc (length kept) \<le> lru_max c"
  proof (cases "k \<in> set (lru_keys ?c1)")
    case True
    then have "Suc (length ?others) \<le> length (lru_items ?c1)"
      using length_filter_other_keys [of k "lru_items ?c1"] by (simp add: lru_keys_def)
    moreover have "kept = ?others" using True by (simp add: kept_def)
    ultimately show ?thesis using bound by auto
  next
    case False
    show ?thesis
    proof (cases ?full)
      case True
      then have "?others \<noteq> []" by auto
      then have "Suc (length (butlast ?others)) = length ?others" by simp
      moreover have "kept = butlast ?others" using True by (simp add: kept_def)
      ultimately show ?thesis using lo by auto
    next
      case nf: False
      then have "lru_max c = 0 \<or> length ?others < lru_max c"
        using False by auto
      moreover have "kept = ?others" using nf by (auto simp: kept_def)
      ultimately show ?thesis by auto
    qed
  qed
  show ?thesis
    unfolding res lru_inv_def lru_keys_def using dk nkk len by simp
qed

lemma lru_mutate_keys [simp]: "lru_keys (lru_mutate k f c) = lru_keys c"
  by (simp add: lru_keys_def lru_mutate_def comp_def if_distrib [of fst] cong: if_cong)

lemma lru_mutate_inv: "lru_inv c \<Longrightarrow> lru_inv (lru_mutate k f c)"
  unfolding lru_inv_def by (simp) (simp add: lru_mutate_def)

lemma lru_get_max [simp]: "lru_max (snd (lru_get now k c)) = lru_max c"
  by (simp add: lru_get_def Let_def split: option.splits)

lemma lru_set_max [simp]: "lru_max (lru_set now k v c) = lru_max c"
  by (simp add: lru_set_def Let_def)

lemma lru_mutate_max [simp]: "lru_max (lru_mutate k f c) = lru_max c"
  by (simp add: lru_mutate_def)

lemma checkRateLimit_cache:
  "snd (checkRateLimit k L w now c) =
     (case fst (lru_get now k c) of
        None \<Rightarrow> lru_mutate k (\<lambda>_. \<lparr>count = 1, reset = now + w\<rparr>)
                 (lru_set now k \<lparr>count = 0, reset = now + w\<rparr> (snd (lru_get now k c)))
      | Some td \<Rightarrow> lru_mutate k (\<lambda>_. td\<lparr>count := count td + 1\<rparr>) (snd (lru_get now k c)))"
  by (simp add: checkRateLimit_def Let_def split: prod.splits option.splits)

lemma checkRateLimit_inv: "lru_inv c \<Longrightarrow> lru_inv (snd (checkRateLimit k L w now c))"
  by (simp add: checkRateLimit_cache lru_mutate_inv lru_set_inv lru_get_inv split: option.splits)

lemma checkRateLimit_max [simp]: "lru_max (snd (checkRateLimit k L w now c)) = lru_max c"
  by (simp add: checkRateLimit_cache split: option.splits)

lemma apply_ops_inv: "lru_inv c \<Longrightarrow> lru_inv (apply_ops L w ops c)"
  by (induction L w ops c rule: apply_ops.induct) (simp_all add: checkRateLimit_inv lru_set_inv)

lemma apply_ops_max: "lru_max (apply_ops L w ops c) = lru_max c"
  by (induction L w ops c rule: apply_ops.induct) simp_all


lemma LRUCache_new_inv:
  assumes "LRUCache_new L ttl = Inr c0"
  shows "lru_inv c0 \<and> lru_max c0 = nat L \<and> lru_ttl c0 = ttl \<and> lru_items c0 = []"
  using assms by (auto simp: LRUCache_new_def lru_inv_def lru_keys_def split: if_splits)

lemma last_notin_butlast: "distinct xs \<Longrightarrow> xs \<noteq> [] \<Longrightarrow> last xs \<notin> set (butlast xs)"
  by (induction xs rule: rev_induct) auto

lemma lru_set_front: "\<exists>rest. lru_keys (lru_set now k v c) = k # rest"
  by (simp add: lru_set_def lru_keys_def Let_def)

lemma lru_get_front:
  "fst (lru_get now k c) = Some v \<Longrightarrow> \<exists>rest. lru_keys (snd (lru_get now k c)) = k # rest"
  by (auto simp: lru_get_def Let_def lru_keys_def split: option.splits)

lemma checkRateLimit_front:
  "\<exists>rest. lru_keys (snd (checkRateLimit k L w now c)) = k # rest"
  by (cases "fst (lru_get now k c)")
    (simp_all add: checkRateLimit_cache lru_set_front lru_get_front)

text \<open>
  C5. The cache is built with \<^verbatim>\<open>max: limit\<close>, so the configured capacity is the limit \<open>L\<close>.
  In every cache reached from a new one by checks and writes, at most \<open>L\<close> keys are
  tracked. A check makes its key the most recently used one. When a key that is not
  tracked is checked while \<open>L\<close> keys are live, the keys afterwards are the new key followed
  by the old ones without the last, the least recently touched: exactly that key is
  evicted. A later check of the evicted key is the check of a fresh key: it is admitted
  with \<open>remaining = L - 1\<close> and its stored count is 1.
\<close>

theorem local_counter_capacity_and_eviction:
  assumes "0 < L" and "LRUCache_new L (w * 1000) = Inr c0" and "c = apply_ops L w ops c0"
  shows "length (lru_keys c) \<le> nat L \<and>
         hd (lru_keys (snd (checkRateLimit k L w now c))) = k \<and>
         (k \<notin> set (lru_keys (purgeStale now c)) \<longrightarrow>
          length (lru_keys (purgeStale now c)) = nat L \<longrightarrow>
            lru_keys (snd (checkRateLimit k L w now c)) = k # butlast (lru_keys (purgeStale now c)) \<and>
            last (lru_keys (purgeStale now c)) \<notin> set (lru_keys (snd (checkRateLimit k L w now c))) \<and>
            fst (checkRateLimit (last (lru_keys (purgeStale now c))) L w later
                  (snd (checkRateLimit k L w now c))) =
              \<lparr>l_success = True, l_remaining = L - 1, l_reset = ceil_div_1000 (later + w)\<rparr> \<and>
            map_of (lru_items (snd (checkRateLimit (last (lru_keys (purgeStale now c))) L w later
                  (snd (checkRateLimit k L w now c))))) (last (lru_keys (purgeStale now c))) =
              Some (\<lparr>count = 1, reset = later + w\<rparr>, later))"
proof (intro conjI impI)
  have c0: "lru_inv c0" "lru_max c0 = nat L"
    using LRUCache_new_inv [OF assms(2)] by simp_all
  have inv: "lru_inv c" and mx: "lru_max c = nat L"
    using c0 assms(3) by (simp_all add: apply_ops_inv apply_ops_max)
  show "length (lru_keys c) \<le> nat L"
    using inv mx assms(1) by (simp add: lru_inv_def lru_keys_def)
  show "hd (lru_keys (snd (checkRateLimit k L w now c))) = k"
    using checkRateLimit_front [of k L w now c] by auto
  let ?c1 = "purgeStale now c"
  let ?e = "last (lru_keys ?c1)"
  let ?c' = "snd (checkRateLimit k L w now c)"
  assume fresh: "k \<notin> set (lru_keys ?c1)" and full: "length (lru_keys ?c1) = nat L"
  have len: "length (lru_items ?c1) = nat L" using full by (simp add: lru_keys_def)
  have ne: "lru_keys ?c1 \<noteq> []" using full assms(1) by auto
  have d: "distinct (lru_keys ?c1)"
    using purgeStale_inv [OF inv, of now] by (simp add: lru_inv_def)
  have items': "lru_items ?c' = (k, \<lparr>count = 1, reset = now + w\<rparr>, now) # butlast (lru_items ?c1)"
    using assms(1) by (simp add: check_fresh [OF fresh] mx len)
  show keys': "lru_keys ?c' = k # butlast (lru_keys ?c1)"
    by (simp add: lru_keys_def items' map_butlast)
  have "?e \<in> set (lru_keys ?c1)" using ne by simp
  then have "?e \<noteq> k" using fresh by auto
  then show gone: "?e \<notin> set (lru_keys ?c')"
    using last_notin_butlast [OF d ne] by (simp add: keys')
  have gone': "?e \<notin> set (lru_keys (purgeStale later ?c'))"
    using gone by (auto simp: purgeStale_def lru_keys_def)
  show "fst (checkRateLimit ?e L w later ?c') =
      \<lparr>l_success = True, l_remaining = L - 1, l_reset = ceil_div_1000 (later + w)\<rparr>"
    using assms(1) by (simp add: check_fresh [OF gone'])
  show "map_of (lru_items (snd (checkRateLimit ?e L w later ?c'))) ?e =
      Some (\<lparr>count = 1, reset = later + w\<rparr>, later)"
    by (simp add: check_fresh [OF gone'])
qed

lemma ex_cache_value:
  "ex_cache = \<lparr>lru_max = 2, lru_ttl = 10000,
     lru_items = [(''a'', \<lparr>count = 3, reset = 10\<rparr>, 0), (''b'', \<lparr>count = 1, reset = 12\<rparr>, 2)]\<rparr>"
  by (simp add: ex_cache_def run_defs)

theorem local_counter_capacity_and_eviction_witness:
  "length (lru_keys ex_cache) \<le> nat 2 \<and>
   lru_keys (purgeStale 4 ex_cache) = [''a'', ''b''] \<and>
   lru_keys (snd (checkRateLimit ''c'' 2 10 4 ex_cache)) = [''c'', ''a''] \<and>
   fst (checkRateLimit ''b'' 2 10 5 (snd (checkRateLimit ''c'' 2 10 4 ex_cache))) =
     \<lparr>l_success = True, l_remaining = 1, l_reset = 1\<rparr> \<and>
   map_of (lru_items (snd (checkRateLimit ''b'' 2 10 5 (snd (checkRateLimit ''c'' 2 10 4 ex_cache)))))
     ''b'' = Some (\<lparr>count = 1, reset = 15\<rparr>, 5)"
proof -
  let ?c0 = "\<lparr>lru_max = 2, lru_ttl = 10000, lru_items = []\<rparr>"
  have h1: "(0::int) < 2" by simp
  have h2: "LRUCache_new 2 (10 * 1000) = Inr ?c0" by (simp add: LRUCache_new_def)
  have h3: "ex_cache = apply_ops 2 10
     [CheckOp ''a'' 0, CheckOp ''a'' 1, CheckOp ''b'' 2, CheckOp ''a'' 3] ?c0"
    by (simp only: ex_cache_def)
  have keys: "lru_keys (purgeStale 4 ex_cache) = [''a'', ''b'']"
    by (simp add: ex_cache_value purgeStale_def lru_keys_def isStale_def)
  have fresh: "''c'' \<notin> set (lru_keys (purgeStale 4 ex_cache))"
    and full: "length (lru_keys (purgeStale 4 ex_cache)) = nat 2"
    by (simp_all add: keys)
  note T = local_counter_capacity_and_eviction [OF h1 h2 h3, of "''c''" 4 5]
  from T have a: "length (lru_keys ex_cache) \<le> nat 2" by blast
  from T fresh full have b:
    "lru_keys (snd (checkRateLimit ''c'' 2 10 4 ex_cache)) =
       ''c'' # butlast (lru_keys (purgeStale 4 ex_cache))"
    by blast
  from T fresh full have c:
    "fst (checkRateLimit (last (lru_keys (purgeStale 4 ex_cache))) 2 10 5
        (snd (checkRateLimit ''c'' 2 10 4 ex_cache))) =
       \<lparr>l_success = True, l_remaining = 2 - 1, l_reset = ceil_div_1000 (5 + 10)\<rparr>"
    by blast
  from T fresh full have d:
    "map_of (lru_items (snd (checkRateLimit (last (lru_keys (purgeStale 4 ex_cache))) 2 10 5
        (snd (checkRateLimit ''c'' 2 10 4 ex_cache)))))
        (last (lru_keys (purgeStale 4 ex_cache))) = Some (\<lparr>count = 1, reset = 5 + 10\<rparr>, 5)"
    by blast
  show ?thesis
    using a b c d unfolding keys by (simp add: ceil_div_1000_def)
qed

lemma purge_expired_key:
  assumes "\<forall>e \<in> set (lru_items c). fst e = k \<longrightarrow> isStale (lru_ttl c) now (snd (snd e))"
  shows "purgeStale now (c\<lparr>lru_items := filter (\<lambda>e. fst e \<noteq> k) (lru_items c)\<rparr>) =
           purgeStale now c"
    and "k \<notin> set (lru_keys (purgeStale now c))"
proof -
  have "filter (\<lambda>e. \<not> isStale (lru_ttl c) now (snd (snd e)))
          (filter (\<lambda>e. fst e \<noteq> k) (lru_items c)) =
        filter (\<lambda>e. \<not> isStale (lru_ttl c) now (snd (snd e))) (lru_items c)"
    unfolding filter_filter using assms by (intro filter_cong) auto
  then show "purgeStale now (c\<lparr>lru_items := filter (\<lambda>e. fst e \<noteq> k) (lru_items c)\<rparr>) =
           purgeStale now c"
    by (simp add: purgeStale_def)
  show "k \<notin> set (lru_keys (purgeStale now c))"
    using assms by (auto simp: purgeStale_def lru_keys_def)
qed

lemma checkRateLimit_purge:
  "checkRateLimit k L w now (purgeStale now c) = checkRateLimit k L w now c"
  by (simp add: checkRateLimit_def lru_get_def purgeStale_idem)

text \<open>
  C6. A key whose entry was stored no later than its last call, with more than the window
  (\<open>w\<close> seconds, \<open>w * 1000\<close> milliseconds) gone since that call: the next
  \<^verbatim>\<open>checkRateLimit\<close> gives the result and the cache it gives when the key is not tracked at
  all; the call is admitted and the stored count is 1 again. The same holds for the log
  of \<^verbatim>\<open>handleRateLimiting\<close> (lines 478 to 501): every time stamp of the key has left the
  window, and the call is admitted as on a key without a log. In the instance that follows
  the key had exhausted its limit: a call within the window is rejected by both.
\<close>

theorem expired_key_is_fresh:
  assumes "0 < L" and "0 < w" and "lru_ttl c = w * 1000"
    and "\<forall>e \<in> set (lru_items c). fst e = k \<longrightarrow> snd (snd e) \<le> t_last"
    and "m k = Some stamps" and "\<forall>t \<in> set stamps. t \<le> t_last"
    and "w * 1000 < now - t_last"
  shows "checkRateLimit k L w now c =
           checkRateLimit k L w now (c\<lparr>lru_items := filter (\<lambda>e. fst e \<noteq> k) (lru_items c)\<rparr>) \<and>
         fst (checkRateLimit k L w now c) =
           \<lparr>l_success = True, l_remaining = L - 1, l_reset = ceil_div_1000 (now + w)\<rparr> \<and>
         map_of (lru_items (snd (checkRateLimit k L w now c))) k =
           Some (\<lparr>count = 1, reset = now + w\<rparr>, now) \<and>
         handleRateLimiting k L (w * 1000) now m =
           handleRateLimiting k L (w * 1000) now (m(k := None)) \<and>
         handleRateLimiting k L (w * 1000) now m = (False, m(k \<mapsto> [now]))"
proof -
  have stale: "\<forall>e \<in> set (lru_items c). fst e = k \<longrightarrow> isStale (lru_ttl c) now (snd (snd e))"
    using assms(2,3,4,7) by (fastforce simp: isStale_def)
  let ?c' = "c\<lparr>lru_items := filter (\<lambda>e. fst e \<noteq> k) (lru_items c)\<rparr>"
  have "checkRateLimit k L w now ?c' = checkRateLimit k L w now (purgeStale now ?c')"
    by (simp only: checkRateLimit_purge)
  also have "\<dots> = checkRateLimit k L w now (purgeStale now c)"
    by (simp only: purge_expired_key(1) [OF stale])
  also have "\<dots> = checkRateLimit k L w now c"
    by (simp only: checkRateLimit_purge)
  finally have same: "checkRateLimit k L w now c = checkRateLimit k L w now ?c'" by simp
  note fresh = check_fresh [OF purge_expired_key(2) [OF stale], of L w]
  have res: "fst (checkRateLimit k L w now c) =
           \<lparr>l_success = True, l_remaining = L - 1, l_reset = ceil_div_1000 (now + w)\<rparr>"
    using assms(1) by (simp add: fresh)
  have stored: "map_of (lru_items (snd (checkRateLimit k L w now c))) k =
           Some (\<lparr>count = 1, reset = now + w\<rparr>, now)"
    by (simp add: fresh)
  have old: "filter (\<lambda>timestamp. now - timestamp < w * 1000) stamps = []"
    using assms(6,7) by (auto simp: filter_empty_conv)
  have js: "handleRateLimiting k L (w * 1000) now m = (False, m(k \<mapsto> [now]))"
    using assms(1,5) by (simp add: handleRateLimiting_def old)
  have js_fresh: "handleRateLimiting k L (w * 1000) now (m(k := None)) = (False, m(k \<mapsto> [now]))"
    using assms(1) by (simp add: handleRateLimiting_def)
  show ?thesis
    using same res stored js js_fresh by simp
qed

theorem expired_key_is_fresh_witness:
  "fst (checkRateLimit ''user-1'' 1 10 5 
      \<lparr>lru_max = 1, lru_ttl = 10000, lru_items = [(''user-1'', \<lparr>count = 1, reset = 10\<rparr>, 0)]\<rparr>) =
     \<lparr>l_success = False, l_remaining = 0, l_reset = 1\<rparr> \<and>
   fst (checkRateLimit ''user-1'' 1 10 10006
      \<lparr>lru_max = 1, lru_ttl = 10000, lru_items = [(''user-1'', \<lparr>count = 2, reset = 10\<rparr>, 0)]\<rparr>) =
     \<lparr>l_success = True, l_remaining = 0, l_reset = 11\<rparr> \<and>
   map_of (lru_items (snd (checkRateLimit ''user-1'' 1 10 10006
      \<lparr>lru_max = 1, lru_ttl = 10000, lru_items = [(''user-1'', \<lparr>count = 2, reset = 10\<rparr>, 0)]\<rparr>)))
     ''user-1'' = Some (\<lparr>count = 1, reset = 10016\<rparr>, 10006) \<and>
   fst (handleRateLimiting ''user-1'' 1 (10 * 1000) 5 [''user-1'' \<mapsto> [0]]) \<and>
   handleRateLimiting ''user-1'' 1 (10 * 1000) 10006 [''user-1'' \<mapsto> [0]] =
     (False, [''user-1'' \<mapsto> [10006]])"
proof -
  let ?c = "\<lparr>lru_max = 1, lru_ttl = 10000,
      lru_items = [(''user-1'', \<lparr>count = 2, reset = 10\<rparr>, 0)]\<rparr>"
  let ?m = "[''user-1'' \<mapsto> [0::int]]"
  have h1: "(0::int) < 1" and h2: "(0::int) < 10" by simp_all
  have h3: "lru_ttl ?c = 10 * 1000" by simp
  have h4: "\<forall>e \<in> set (lru_items ?c). fst e = ''user-1'' \<longrightarrow> snd (snd e) \<le> 5" by simp
  have h5: "?m ''user-1'' = Some [0]" by simp
  have h6: "\<forall>t \<in> set [0::int]. t \<le> 5" by simp
  have h7: "(10::int) * 1000 < 10006 - 5" by simp
  note T = expired_key_is_fresh [where m = ?m and k = "''user-1''" and now = 10006,
      OF h1 h2 h3 h4 h5 h6 h7]
  have before: "fst (checkRateLimit ''user-1'' 1 10 5
      \<lparr>lru_max = 1, lru_ttl = 10000, lru_items = [(''user-1'', \<lparr>count = 1, reset = 10\<rparr>, 0)]\<rparr>) =
     \<lparr>l_success = False, l_remaining = 0, l_reset = 1\<rparr>"
    by (simp add: run_defs)
  have before_js: "fst (handleRateLimiting ''user-1'' 1 (10 * 1000) 5 ?m)"
    by (simp add: handleRateLimiting_def)
  from T have t2: "fst (checkRateLimit ''user-1'' 1 10 10006 ?c) =
      \<lparr>l_success = True, l_remaining = 1 - 1, l_reset = ceil_div_1000 (10006 + 10)\<rparr>"
    by blast
  from T have t3: "map_of (lru_items (snd (checkRateLimit ''user-1'' 1 10 10006 ?c))) ''user-1'' =
      Some (\<lparr>count = 1, reset = 10006 + 10\<rparr>, 10006)"
    by blast
  from T have t5: "handleRateLimiting ''user-1'' 1 (10 * 1000) 10006 ?m =
      (False, ?m(''user-1'' \<mapsto> [10006]))"
    by blast
  show ?thesis
    unfolding t2 t3 t5 using before before_js by (simp add: ceil_div_1000_def)
qed

section \<open>The two dimensions of the first version\<close>

lemma handleRateLimiting_v1_frame:
  "key' \<noteq> key \<Longrightarrow> snd (handleRateLimiting_v1 key n windowMs now m) key' = m key'"
  by (simp add: handleRateLimiting_v1_def Let_def)

lemma handleRateLimiting_v1_exhausted:
  assumes "m key = Some d" and "now - lastReset d \<le> windowMs" and "n \<le> wr_count d"
  shows "handleRateLimiting_v1 key n windowMs now m = (True, m)"
proof -
  have "m(key \<mapsto> d) = m" using assms(1) by (auto simp: fun_eq_iff)
  then show ?thesis using assms by (simp add: handleRateLimiting_v1_def Let_def)
qed

text \<open>
  C7, as amended. In \<^verbatim>\<open>rateLimit\<close> of lines 53 to 75 the address and the session are
  counted in one map under their bare strings. When the address key and the session key
  differ, a check of one leaves the record of the other as it was; an exhausted address
  counter gives the response \<^verbatim>\<open>Too Many Requests - IP Limit\<close> and leaves the session's
  record unchanged; and an exhausted session counter, when the address check passes, gives
  \<^verbatim>\<open>Too Many Requests - Session Limit\<close>, the address record being the one its own check
  left.
\<close>

theorem rateLimit_v1_dimensions_distinct_keys:
  assumes "ipKey = or_else (x_forwarded_for request) (ip request)"
    and "sessionId = (if truthy cookie then cookie else Some uuid)"
    and "ipKey \<noteq> sessionId"
  shows "snd (handleRateLimiting_v1 ipKey ipLimit windowMs now m) sessionId = m sessionId \<and>
         snd (handleRateLimiting_v1 sessionId sessionLimit windowMs now m) ipKey = m ipKey \<and>
         ((\<exists>d. m ipKey = Some d \<and> now - lastReset d \<le> windowMs \<and> ipLimit \<le> wr_count d) \<longrightarrow>
            fst (fst (rateLimit_v1 request cookie uuid (Some ipLimit) (Some sessionLimit)
                  (Some windowMs) now m)) = Some (''Too Many Requests - IP Limit'', 429) \<and>
            snd (rateLimit_v1 request cookie uuid (Some ipLimit) (Some sessionLimit)
                  (Some windowMs) now m) sessionId = m sessionId) \<and>
         (\<not> fst (handleRateLimiting_v1 ipKey ipLimit windowMs now m) \<and>
          (\<exists>d. m sessionId = Some d \<and> now - lastReset d \<le> windowMs \<and> sessionLimit \<le> wr_count d) \<longrightarrow>
            fst (fst (rateLimit_v1 request cookie uuid (Some ipLimit) (Some sessionLimit)
                  (Some windowMs) now m)) = Some (''Too Many Requests - Session Limit'', 429) \<and>
            snd (rateLimit_v1 request cookie uuid (Some ipLimit) (Some sessionLimit)
                  (Some windowMs) now m) ipKey =
              snd (handleRateLimiting_v1 ipKey ipLimit windowMs now m) ipKey)"
proof (intro conjI impI)
  show "snd (handleRateLimiting_v1 ipKey ipLimit windowMs now m) sessionId = m sessionId"
    using assms(3) by (simp add: handleRateLimiting_v1_frame)
  show "snd (handleRateLimiting_v1 sessionId sessionLimit windowMs now m) ipKey = m ipKey"
    using assms(3) by (simp add: handleRateLimiting_v1_frame)
next
  assume "\<exists>d. m ipKey = Some d \<and> now - lastReset d \<le> windowMs \<and> ipLimit \<le> wr_count d"
  then obtain d where "m ipKey = Some d" "now - lastReset d \<le> windowMs" "ipLimit \<le> wr_count d"
    by blast
  then have ex: "handleRateLimiting_v1 ipKey ipLimit windowMs now m = (True, m)"
    by (rule handleRateLimiting_v1_exhausted)
  show "fst (fst (rateLimit_v1 request cookie uuid (Some ipLimit) (Some sessionLimit)
          (Some windowMs) now m)) = Some (''Too Many Requests - IP Limit'', 429)"
    using ex assms(1) by (simp add: rateLimit_v1_def Let_def split: prod.splits)
  show "snd (rateLimit_v1 request cookie uuid (Some ipLimit) (Some sessionLimit)
          (Some windowMs) now m) sessionId = m sessionId"
    using ex assms(1) by (simp add: rateLimit_v1_def Let_def split: prod.splits)
next
  assume a: "\<not> fst (handleRateLimiting_v1 ipKey ipLimit windowMs now m) \<and>
    (\<exists>d. m sessionId = Some d \<and> now - lastReset d \<le> windowMs \<and> sessionLimit \<le> wr_count d)"
  define m1 where "m1 = snd (handleRateLimiting_v1 ipKey ipLimit windowMs now m)"
  from a obtain d where d: "m sessionId = Some d" "now - lastReset d \<le> windowMs"
    "sessionLimit \<le> wr_count d"
    by blast
  have "m1 sessionId = Some d"
    using assms(3) d(1) by (simp add: m1_def handleRateLimiting_v1_frame)
  then have ex: "handleRateLimiting_v1 sessionId sessionLimit windowMs now m1 = (True, m1)"
    using d(2,3) by (rule handleRateLimiting_v1_exhausted)
  have first: "handleRateLimiting_v1 ipKey ipLimit windowMs now m = (False, m1)"
    using a by (simp add: m1_def prod_eq_iff)
  have sid: "(if truthy cookie then (cookie, None) else (Some uuid, Some uuid)) =
      (sessionId, if truthy cookie then None else Some uuid)"
    using assms(2) by simp
  have run: "rateLimit_v1 request cookie uuid (Some ipLimit) (Some sessionLimit)
          (Some windowMs) now m =
       ((Some (''Too Many Requests - Session Limit'', 429),
         if truthy cookie then None else Some uuid), m1)"
    unfolding rateLimit_v1_def Let_def assms(1) [symmetric] sid
    by (simp add: first ex)
  show "fst (fst (rateLimit_v1 request cookie uuid (Some ipLimit) (Some sessionLimit)
          (Some windowMs) now m)) = Some (''Too Many Requests - Session Limit'', 429)"
    by (simp add: run)
  show "snd (rateLimit_v1 request cookie uuid (Some ipLimit) (Some sessionLimit)
          (Some windowMs) now m) ipKey =
        snd (handleRateLimiting_v1 ipKey ipLimit windowMs now m) ipKey"
    by (simp add: run first)
qed


theorem rateLimit_v1_dimensions_distinct_keys_witness:
  "fst (fst (rateLimit_v1 ex_other_key_request (Some ''s1'') ''u'' (Some 1) (Some 2) (Some 15000) 1
      [Some ''a1'' \<mapsto> \<lparr>wr_count = 1, lastReset = 0\<rparr>, Some ''s1'' \<mapsto> \<lparr>wr_count = 1, lastReset = 0\<rparr>])) =
     Some (''Too Many Requests - IP Limit'', 429) \<and>
   snd (rateLimit_v1 ex_other_key_request (Some ''s1'') ''u'' (Some 1) (Some 2) (Some 15000) 1
      [Some ''a1'' \<mapsto> \<lparr>wr_count = 1, lastReset = 0\<rparr>, Some ''s1'' \<mapsto> \<lparr>wr_count = 1, lastReset = 0\<rparr>])
     (Some ''s1'') = Some \<lparr>wr_count = 1, lastReset = 0\<rparr> \<and>
   fst (fst (rateLimit_v1 ex_other_key_request (Some ''s1'') ''u'' (Some 300) (Some 2) (Some 15000) 1
      [Some ''a1'' \<mapsto> \<lparr>wr_count = 2, lastReset = 0\<rparr>, Some ''s1'' \<mapsto> \<lparr>wr_count = 2, lastReset = 0\<rparr>])) =
     Some (''Too Many Requests - Session Limit'', 429) \<and>
   snd (rateLimit_v1 ex_other_key_request (Some ''s1'') ''u'' (Some 300) (Some 2) (Some 15000) 1
      [Some ''a1'' \<mapsto> \<lparr>wr_count = 2, lastReset = 0\<rparr>, Some ''s1'' \<mapsto> \<lparr>wr_count = 2, lastReset = 0\<rparr>])
     (Some ''a1'') = Some \<lparr>wr_count = 3, lastReset = 0\<rparr>"
proof -
  let ?m = "[Some ''a1'' \<mapsto> \<lparr>wr_count = 1, lastReset = 0\<rparr>,
             Some ''s1'' \<mapsto> \<lparr>wr_count = 1, lastReset = 0\<rparr>]"
  let ?m' = "[Some ''a1'' \<mapsto> \<lparr>wr_count = 2, lastReset = 0\<rparr>,
              Some ''s1'' \<mapsto> \<lparr>wr_count = 2, lastReset = 0\<rparr>]"
  have h1: "Some ''a1'' = or_else (x_forwarded_for ex_other_key_request) (ip ex_other_key_request)"
    by (simp add: ex_other_key_request_def or_else_def truthy_def)
  have h2: "Some ''s1'' = (if truthy (Some ''s1'') then Some ''s1'' else Some ''u'')"
    by (simp add: truthy_def)
  have h3: "Some ''a1'' \<noteq> Some ''s1''" by simp
  have ip_ex: "\<exists>d. ?m (Some ''a1'') = Some d \<and> 1 - lastReset d \<le> 15000 \<and> 1 \<le> wr_count d"
    by simp
  have ip_ok: "\<not> fst (handleRateLimiting_v1 (Some ''a1'') 300 15000 1 ?m')"
    by (simp add: handleRateLimiting_v1_def)
  have s_ex: "\<exists>d. ?m' (Some ''s1'') = Some d \<and> 1 - lastReset d \<le> 15000 \<and> 2 \<le> wr_count d"
    by simp
  note A = rateLimit_v1_dimensions_distinct_keys [OF h1 h2 h3, of 1 15000 1 ?m 2]
  note B = rateLimit_v1_dimensions_distinct_keys [OF h1 h2 h3, of 300 15000 1 ?m' 2]
  from A ip_ex have a1: "fst (fst (rateLimit_v1 ex_other_key_request (Some ''s1'') ''u'' (Some 1)
      (Some 2) (Some 15000) 1 ?m)) = Some (''Too Many Requests - IP Limit'', 429)"
    by blast
  from A ip_ex have a2: "snd (rateLimit_v1 ex_other_key_request (Some ''s1'') ''u'' (Some 1)
      (Some 2) (Some 15000) 1 ?m) (Some ''s1'') = ?m (Some ''s1'')"
    by blast
  from B ip_ok s_ex have b1: "fst (fst (rateLimit_v1 ex_other_key_request (Some ''s1'') ''u''
      (Some 300) (Some 2) (Some 15000) 1 ?m')) = Some (''Too Many Requests - Session Limit'', 429)"
    by blast
  from B ip_ok s_ex have b2: "snd (rateLimit_v1 ex_other_key_request (Some ''s1'') ''u''
      (Some 300) (Some 2) (Some 15000) 1 ?m') (Some ''a1'') =
      snd (handleRateLimiting_v1 (Some ''a1'') 300 15000 1 ?m') (Some ''a1'')"
    by blast
  show ?thesis
    unfolding a1 a2 b1 b2 by (simp add: handleRateLimiting_v1_def)
qed

text \<open>
  The claim as stated, for every address and session, fails when the two keys are the same
  string (the session cookie is chosen by the client): both checks then count on one
  record. With a session limit of 2 the first request leaves the count at 2, and the second
  request of the session is rejected with the session tag, while the same two requests
  from an address that differs from the session identifier are both admitted.
\<close>

theorem rateLimit_v1_shared_key_counterexample:
  "or_else (x_forwarded_for ex_same_key_request) (ip ex_same_key_request) = Some ''s1'' \<and>
   snd (rateLimit_v1 ex_same_key_request (Some ''s1'') ''u'' (Some 300) (Some 2) (Some 15000) 0
      Map.empty) (Some ''s1'') = Some \<lparr>wr_count = 2, lastReset = 0\<rparr> \<and>
   fst (fst (rateLimit_v1 ex_same_key_request (Some ''s1'') ''u'' (Some 300) (Some 2) (Some 15000) 1
      (snd (rateLimit_v1 ex_same_key_request (Some ''s1'') ''u'' (Some 300) (Some 2) (Some 15000) 0
         Map.empty)))) = Some (''Too Many Requests - Session Limit'', 429) \<and>
   fst (fst (rateLimit_v1 ex_other_key_request (Some ''s1'') ''u'' (Some 300) (Some 2) (Some 15000) 1
      (snd (rateLimit_v1 ex_other_key_request (Some ''s1'') ''u'' (Some 300) (Some 2) (Some 15000) 0
         Map.empty)))) = None \<and>
   snd (handleRateLimiting_v1 (Some ''s1'') 300 15000 0 [Some ''s1'' \<mapsto> \<lparr>wr_count = 1, lastReset = 0\<rparr>])
     (Some ''s1'') \<noteq> [Some ''s1'' \<mapsto> \<lparr>wr_count = 1, lastReset = 0\<rparr>] (Some ''s1'')"
  by (simp add: ex_same_key_request_def ex_other_key_request_def rateLimit_v1_def
      handleRateLimiting_v1_def or_else_def truthy_def)

section \<open>The quota of a key among other keys\<close>

lemma lru_get_ttl [simp]: "lru_ttl (snd (lru_get now k c)) = lru_ttl c"
  by (simp add: lru_get_def Let_def split: option.splits)

lemma lru_set_ttl [simp]: "lru_ttl (lru_set now k v c) = lru_ttl c"
  by (simp add: lru_set_def Let_def)

lemma lru_mutate_ttl [simp]: "lru_ttl (lru_mutate k f c) = lru_ttl c"
  by (simp add: lru_mutate_def)

lemma checkRateLimit_ttl [simp]: "lru_ttl (snd (checkRateLimit k L w now c)) = lru_ttl c"
  by (simp add: checkRateLimit_cache split: option.splits)


















end
